theory Spec2Isabelle
  imports Complex_Main "HOL-Library.List_Lexorder" "HOL-Library.Char_ord"
begin

section \<open>Errors\<close>

text \<open>
  The Python exceptions that the modelled code can raise, as values.
  \<open>IncompatibleDimensions\<close> is \<open>Exception("Incompatible dimensions.")\<close>.
\<close>

datatype error =
    IndexError
  | TypeError
  | AttributeError
  | KeyError
  | IncompatibleDimensions
  | NonAffine

section \<open>Epigraph rewrite of the infinity norm (norm\_inf\_canon.py)\<close>

text \<open>
  \<open>norm_inf_canon(expr, args)\<close> reads \<open>expr.shape\<close> and \<open>args[0].shape\<close> only, so an
  expression object is its name and its shape attribute. The objects that the
  function builds (a variable, \<open>promote(t, shape)\<close>, \<open>a + b\<close>, \<open>a <= b\<close>, \<open>a >= 0\<close>) are
  kept as symbolic terms.
\<close>

type_synonym shape = "nat list"

record expression =
  e_name :: string
  e_shape :: shape

record aux_variable =
  t_id :: nat
  t_shape :: shape

datatype affine_term =
    ArgExpr expression
  | Var aux_variable
  | promote affine_term shape
  | AddExpr affine_term affine_term
  | NumConst int

datatype pwl_constraint =
    Leq affine_term affine_term
  | Geq affine_term affine_term

text \<open>
  Modelled from the spec: the constructor \<open>Variable(*shape)\<close> (cvxpy.expressions.variable
  is not among the sources) yields a fresh variable of the shape it is given. Freshness
  is a counter of the identities handed out so far, threaded through the call.
\<close>

definition Variable :: "shape \<Rightarrow> nat \<Rightarrow> aux_variable \<times> nat" where
  "Variable shp next_id = (\<lparr>t_id = next_id, t_shape = shp\<rparr>, Suc next_id)"

definition norm_inf_canon ::
  "expression \<Rightarrow> expression list \<Rightarrow> nat
     \<Rightarrow> error + ((aux_variable \<times> pwl_constraint list) \<times> nat)" where
  "norm_inf_canon expr args next_id =
     (case args of
        [] \<Rightarrow> Inl IndexError
      | x # _ \<Rightarrow>
          (let shape = e_shape expr;
               (t, next_id') = Variable shape next_id;
               promoted_t = promote (Var t) (e_shape x)
           in Inr ((t, [Leq (ArgExpr x) promoted_t,
                        Geq (AddExpr (ArgExpr x) promoted_t) (NumConst 0)]), next_id')))"

text \<open>The operands of every \<open>promote\<close> node of a term, with the shape promoted to.\<close>

fun promoted :: "affine_term \<Rightarrow> (affine_term \<times> shape) list" where
  "promoted (ArgExpr x) = []"
| "promoted (Var t) = []"
| "promoted (promote a s) = (a, s) # promoted a"
| "promoted (AddExpr a b) = promoted a @ promoted b"
| "promoted (NumConst k) = []"

fun promoted_c :: "pwl_constraint \<Rightarrow> (affine_term \<times> shape) list" where
  "promoted_c (Leq a b) = promoted a @ promoted b"
| "promoted_c (Geq a b) = promoted a @ promoted b"

text \<open>The variables that occur in a term.\<close>

fun term_vars :: "affine_term \<Rightarrow> aux_variable set" where
  "term_vars (ArgExpr x) = {}"
| "term_vars (Var t) = {t}"
| "term_vars (promote a s) = term_vars a"
| "term_vars (AddExpr a b) = term_vars a \<union> term_vars b"
| "term_vars (NumConst k) = {}"

fun constraint_vars :: "pwl_constraint \<Rightarrow> aux_variable set" where
  "constraint_vars (Leq a b) = term_vars a \<union> term_vars b"
| "constraint_vars (Geq a b) = term_vars a \<union> term_vars b"

section \<open>Canonical constraints (problem.py)\<close>

type_synonym size = "nat \<times> nat"

text \<open>
  Variables of the problem layer: \<open>v.id\<close> (a string, the comment of \<open>variables\<close> sorts
  them alphabetically) and \<open>v.size\<close>.
\<close>

record variable =
  v_id :: string
  v_size :: size

text \<open>
  Modelled from the spec: a scalar slot id is the reserved id \<open>s.CONSTANT\<close> or the
  triple (variable identity, row, col) that \<open>var.index_id(row, col)\<close> stands for
  (cvxpy.expressions.variable and cvxpy.settings are not among the sources).
\<close>

datatype slot = CONSTANT | Slot string nat nat

definition index_id :: "variable \<Rightarrow> nat \<Rightarrow> nat \<Rightarrow> slot" where
  "index_id var row col = Slot (v_id var) row col"

datatype target = DENSE_TARGET | SPARSE_TARGET

record interface =
  TARGET_MATRIX :: target

text \<open>
  Modelled from the spec: \<open>intf.get_matrix_interface(target)\<close> is the numeric interface
  whose representation tag is \<open>target\<close> (cvxpy.interface is not among the sources).
\<close>

definition get_matrix_interface :: "target \<Rightarrow> interface" where
  "get_matrix_interface t = \<lparr>TARGET_MATRIX = t\<rparr>"

text \<open>
  What the pipeline reads from an affine object (the canonical objective, an
  \<open>AffEqConstraint\<close>, an \<open>AffLeqConstraint\<close>): its identity as an object, \<open>size\<close>,
  \<open>variables()\<close> and \<open>coefficients(interface)\<close>, a dict from slot ids to column blocks.
\<close>

record affine =
  a_oid :: nat
  a_size :: size
  a_variables :: "variable list"
  a_coefficients :: "interface \<Rightarrow> slot \<Rightarrow> real list option"

text \<open>
  Modelled from the spec: the objects of the combined constraint list, by class
  (cvxpy.constraints is not among the sources). An affine constraint carries one affine
  object. A second-order-cone constraint \<open>SOC i n f\<close> is the object \<open>i\<close> with the cone size
  \<open>n\<close> as its \<open>size\<close>, and \<open>f\<close> are the \<open>AffLeqConstraint\<close> objects that its \<open>format()\<close>
  returns, the inequality form that the solver expects. Any other object is known by its
  identity alone.
\<close>

datatype constr =
    AffEqConstraint affine
  | AffLeqConstraint affine
  | SOC nat nat "affine list"
  | OtherObject nat

fun isinstance_AffEqConstraint :: "constr \<Rightarrow> bool" where
  "isinstance_AffEqConstraint (AffEqConstraint a) = True"
| "isinstance_AffEqConstraint c = False"

fun isinstance_AffLeqConstraint :: "constr \<Rightarrow> bool" where
  "isinstance_AffLeqConstraint (AffLeqConstraint a) = True"
| "isinstance_AffLeqConstraint c = False"

fun isinstance_SOC :: "constr \<Rightarrow> bool" where
  "isinstance_SOC (SOC i n f) = True"
| "isinstance_SOC c = False"

text \<open>
  Modelled from the spec: constraint objects compare and hash by object identity (the
  constraint classes are not among the sources). An object is written with its
  identity, so two occurrences of one object are equal values and two objects differ in
  their identity. For \<open>list(set(constraints))\<close> Python fixes nothing but the elements of
  the result, each once, so the listing is a parameter \<open>enum\<close> of the model, and
  \<open>py_set_list enum cs\<close> says that \<open>enum\<close> lists the set of \<open>cs\<close>.
\<close>

definition py_set_list :: "('a list \<Rightarrow> 'a list) \<Rightarrow> 'a list \<Rightarrow> bool" where
  "py_set_list enum cs = (distinct (enum cs) \<and> set (enum cs) = set cs)"

definition filter_constraints ::
  "(constr list \<Rightarrow> constr list) \<Rightarrow> constr list
     \<Rightarrow> constr list \<times> constr list \<times> constr list" where
  "filter_constraints enum constraints =
     (let constraints = enum constraints;
          eq_constraints = [c \<leftarrow> constraints. isinstance_AffEqConstraint c];
          ineq_constraints = [c \<leftarrow> constraints. isinstance_AffLeqConstraint c];
          soc_constraints = [c \<leftarrow> constraints. isinstance_SOC c]
      in (eq_constraints, ineq_constraints, soc_constraints))"

text \<open>Two objects are structurally identical when they differ in identity at most.\<close>

fun same_structure :: "constr \<Rightarrow> constr \<Rightarrow> bool" where
  "same_structure (AffEqConstraint a) (AffEqConstraint b) = (a\<lparr>a_oid := 0\<rparr> = b\<lparr>a_oid := 0\<rparr>)"
| "same_structure (AffLeqConstraint a) (AffLeqConstraint b) = (a\<lparr>a_oid := 0\<rparr> = b\<lparr>a_oid := 0\<rparr>)"
| "same_structure (SOC i n f) (SOC j m g) = (n = m \<and> f = g)"
| "same_structure (OtherObject i) (OtherObject j) = True"
| "same_structure c d = False"


section \<open>Canonicalization (problem.py)\<close>

text \<open>
  Attribute access on an object of the combined list. An \<open>AffEqConstraint\<close> or an
  \<open>AffLeqConstraint\<close> has \<open>size\<close>, \<open>variables()\<close> and \<open>coefficients()\<close>; \<open>format()\<close> is a
  method of \<open>SOC\<close>. Anything else raises.
\<close>

fun as_affine :: "constr \<Rightarrow> error + affine" where
  "as_affine (AffEqConstraint a) = Inr a"
| "as_affine (AffLeqConstraint a) = Inr a"
| "as_affine (SOC i n f) = Inl TypeError"
| "as_affine (OtherObject i) = Inl AttributeError"

fun format :: "constr \<Rightarrow> error + constr list" where
  "format (SOC i n f) = Inr (map AffLeqConstraint f)"
| "format c = Inl AttributeError"

fun cone_size :: "constr \<Rightarrow> error + nat" where
  "cone_size (SOC i n f) = Inr n"
| "cone_size c = Inl AttributeError"

fun soc_triple :: "nat \<times> nat \<times> affine list \<Rightarrow> constr" where
  "soc_triple (i, n, f) = SOC i n f"

fun mapE :: "('a \<Rightarrow> error + 'b) \<Rightarrow> 'a list \<Rightarrow> error + 'b list" where
  "mapE f [] = Inr []"
| "mapE f (x # xs) =
     (case f x of
        Inl e \<Rightarrow> Inl e
      | Inr y \<Rightarrow> (case mapE f xs of Inl e \<Rightarrow> Inl e | Inr ys \<Rightarrow> Inr (y # ys)))"

text \<open>
  The objective and the constraints of a problem, as the pipeline reads them: the
  results of \<open>is_dcp()\<close> and \<open>canonical_form()\<close> (of a constraint only component 1 is read)
  and the function \<open>objective.value\<close>. \<open>Problem\<close> is \<open>__init__\<close>.
\<close>

record objective_obj =
  o_is_dcp :: bool
  o_canonical_form :: "affine \<times> constr list"
  o_value :: "real \<Rightarrow> real"

record constraint_obj =
  k_is_dcp :: bool
  k_canonical_form_1 :: "constr list"

record problem =
  p_objective :: objective_obj
  p_constraints :: "constraint_obj list"
  p_interface :: interface
  p_dense_interface :: interface

definition Problem :: "objective_obj \<Rightarrow> constraint_obj list \<Rightarrow> target \<Rightarrow> problem" where
  "Problem objective constraints target_matrix =
     \<lparr>p_objective = objective,
      p_constraints = constraints,
      p_interface = get_matrix_interface target_matrix,
      p_dense_interface = get_matrix_interface DENSE_TARGET\<rparr>"

definition is_dcp :: "problem \<Rightarrow> bool" where
  "is_dcp p = list_all (\<lambda>b. b) (map k_is_dcp (p_constraints p) @ [o_is_dcp (p_objective p)])"

record dims =
  dims_l :: nat
  dims_q :: "nat list"
  dims_s :: "nat list"

text \<open>The combined list: the objective's constraints, then each constraint's, in order.\<close>

definition combined_constraints :: "problem \<Rightarrow> constr list" where
  "combined_constraints p =
     fold (\<lambda>constr constraints. constraints @ k_canonical_form_1 constr)
       (p_constraints p) (snd (o_canonical_form (p_objective p)))"

definition canonicalize ::
  "(constr list \<Rightarrow> constr list) \<Rightarrow> problem
     \<Rightarrow> error + (affine \<times> constr list \<times> constr list \<times> dims)" where
  "canonicalize enum p =
     (let obj = fst (o_canonical_form (p_objective p));
          constraints = combined_constraints p;
          (eq_constr, ineq_constr, soc_constr) = filter_constraints enum constraints
      in case mapE as_affine ineq_constr of
           Inl e \<Rightarrow> Inl e
         | Inr sized \<Rightarrow>
            (let l = sum_list (map (\<lambda>c. fst (a_size c) * snd (a_size c)) sized)
             in case mapE format soc_constr of
                  Inl e \<Rightarrow> Inl e
                | Inr formatted \<Rightarrow>
                   (let ineq_constr = ineq_constr @ concat formatted
                    in case mapE cone_size soc_constr of
                         Inl e \<Rightarrow> Inl e
                       | Inr q \<Rightarrow>
                           Inr (obj, eq_constr, ineq_constr,
                                \<lparr>dims_l = l, dims_q = q, dims_s = []\<rparr>))))"

section \<open>Variable enumeration (problem.py)\<close>

text \<open>
  \<open>variables\<close>: the list \<open>vars\<close> is the objective's variables followed by each
  constraint's (\<open>collect_variables\<close>); the dict comprehension
  \<open>{v.id: v for v in vars}\<close> keeps the last object of each id, so it is the lookup in
  the reversed list (\<open>var_dict\<close>); \<open>sorted(var_id.keys())\<close> sorts the distinct ids, and
  strings compare character by character; \<open>var_id[k]\<close> raises when \<open>k\<close> is not a key.
  \<open>variable_ids\<close>: the slots of each variable in turn, the columns outermost.
\<close>

definition variable_ids :: "variable list \<Rightarrow> slot list" where
  "variable_ids variables =
     concat (map (\<lambda>var.
       concat (map (\<lambda>col.
         map (\<lambda>row. index_id var row col) [0..<fst (v_size var)])
         [0..<snd (v_size var)]))
       variables)"

definition collect_variables :: "affine \<Rightarrow> affine list \<Rightarrow> variable list" where
  "collect_variables objective constraints =
     fold (\<lambda>constr vars. vars @ a_variables constr) constraints (a_variables objective)"

definition var_dict :: "variable list \<Rightarrow> string \<Rightarrow> variable option" where
  "var_dict vars = map_of (rev (map (\<lambda>v. (v_id v, v)) vars))"

definition variables :: "affine \<Rightarrow> affine list \<Rightarrow> error + variable list" where
  "variables objective constraints =
     (let vars = collect_variables objective constraints;
          var_id = var_dict vars;
          keys = sort (remdups (map v_id vars))
      in mapE (\<lambda>k. case var_id k of None \<Rightarrow> Inl KeyError | Some v \<Rightarrow> Inr v) keys)"

section \<open>Matrices and assembly (problem.py)\<close>

text \<open>
  Modelled from the spec: the numeric interface (cvxpy.interface is not among the
  sources) exposes \<open>zeros(rows, cols)\<close> and
  \<open>block_copy(dst, src, row_offset, col_offset, rows, cols)\<close>. A matrix is its
  representation tag, its size and its rows; a block is given flat, in column-major
  order, and an entry that the block does not cover keeps its value. \<open>matrix_T\<close> is
  \<open>.T\<close> and \<open>matrix_neg\<close> is unary minus.
\<close>

record matrix =
  m_target :: target
  m_size :: size
  m_rows :: "real list list"

definition zeros :: "interface \<Rightarrow> nat \<Rightarrow> nat \<Rightarrow> matrix" where
  "zeros intf rows cols =
     \<lparr>m_target = TARGET_MATRIX intf, m_size = (rows, cols),
      m_rows = replicate rows (replicate cols 0)\<rparr>"

definition block_copy :: "matrix \<Rightarrow> real list \<Rightarrow> nat \<Rightarrow> nat \<Rightarrow> nat \<Rightarrow> nat \<Rightarrow> matrix" where
  "block_copy matrix block vert_offset horiz_offset rows cols =
     matrix\<lparr>m_rows :=
       map (\<lambda>(i, r).
         map (\<lambda>(j, x).
           if vert_offset \<le> i \<and> i < vert_offset + rows
              \<and> horiz_offset \<le> j \<and> j < horiz_offset + cols
              \<and> (j - horiz_offset) * rows + (i - vert_offset) < length block
           then block ! ((j - horiz_offset) * rows + (i - vert_offset))
           else x)
           (enumerate 0 r))
         (enumerate 0 (m_rows matrix))\<rparr>"

definition matrix_T :: "matrix \<Rightarrow> matrix" where
  "matrix_T m =
     m\<lparr>m_size := (snd (m_size m), fst (m_size m)),
       m_rows := map (\<lambda>j. map (\<lambda>i. m_rows m ! i ! j) [0..<fst (m_size m)])
                     [0..<snd (m_size m)]\<rparr>"

definition matrix_neg :: "matrix \<Rightarrow> matrix" where
  "matrix_neg m = m\<lparr>m_rows := map (map uminus) (m_rows m)\<rparr>"

definition constraints_matrix :: "affine list \<Rightarrow> slot list \<Rightarrow> interface \<Rightarrow> matrix" where
  "constraints_matrix aff_expressions var_ids intf =
     (let rows = sum_list (map (\<lambda>aff. fst (a_size aff) * snd (a_size aff)) aff_expressions);
          cols = length var_ids;
          matrix = zeros intf rows cols
      in fst (fold
           (\<lambda>aff_exp (matrix, vert_offset).
              let num_entries = fst (a_size aff_exp) * snd (a_size aff_exp);
                  coefficients = a_coefficients aff_exp intf
              in (fst (fold
                    (\<lambda>id (matrix, horiz_offset).
                       ((case coefficients id of
                           Some block \<Rightarrow>
                             block_copy matrix block vert_offset horiz_offset num_entries 1
                         | None \<Rightarrow> matrix),
                        horiz_offset + 1))
                    var_ids (matrix, 0)),
                  vert_offset + num_entries))
           aff_expressions (matrix, 0)))"

section \<open>Solving (problem.py)\<close>

text \<open>
  The two backends are parameters of the model: \<open>conelp\<close> for \<open>cvxopt.solvers.conelp\<close> and
  \<open>ecos\<close> for \<open>ecos.ecos\<close>, each from the six arguments to the fields of its result that
  \<open>_solve\<close> reads. A \<open>report\<close> holds what either branch of \<open>_solve\<close> extracts from the
  result.
\<close>

record solver_args =
  arg_c :: matrix
  arg_G :: matrix
  arg_h :: matrix
  arg_A :: matrix
  arg_b :: matrix
  arg_dims :: dims

record conelp_results =
  conelp_status :: string
  conelp_primal_objective :: real
  conelp_x :: "real list"
  conelp_y :: "real list"
  conelp_z :: "real list"

record ecos_results =
  ecos_x :: "real list"
  ecos_y :: "real list"
  ecos_z :: "real list"
  ecos_exitFlag :: int
  ecos_infostring :: string
  ecos_pcost :: real

datatype backend = CVXOPT_CONELP | ECOS

record report =
  r_solved :: bool
  r_status :: string
  r_primal_val :: real
  r_x :: "real list"
  r_y :: "real list"
  r_z :: "real list"

text \<open>
  Modelled from the spec: \<open>obj.save_value(value)\<close> attaches the value to the variable or
  constraint object, and a block larger than 1 by 1 is written back into a dense numeric
  container (\<open>obj.interface\<close> and \<open>save_value\<close> are not among the sources). The store maps
  an object to the value saved last. \<open>save_values\<close> starts \<open>save_values_from\<close> at offset 0;
  \<open>result_vec[offset]\<close> raises when the offset is out of range, a slice does not.
\<close>

datatype saved = Scalar real | Block matrix

datatype ref = VariableRef string | ConstraintRef nat

type_synonym store = "ref \<Rightarrow> saved option"

fun save_values_from ::
  "real list \<Rightarrow> (ref \<times> size) list \<Rightarrow> nat \<Rightarrow> store \<Rightarrow> error option \<times> store" where
  "save_values_from result_vec [] offset st = (None, st)"
| "save_values_from result_vec ((obj, (rows, cols)) # objects) offset st =
     (if (rows, cols) = (1, 1) then
        (if offset < length result_vec
         then save_values_from result_vec objects (offset + rows * cols)
                (st(obj \<mapsto> Scalar (result_vec ! offset)))
         else (Some IndexError, st))
      else
        (let value = zeros (get_matrix_interface DENSE_TARGET) rows cols;
             value = block_copy value (take (rows * cols) (drop offset result_vec))
                       0 0 rows cols
         in save_values_from result_vec objects (offset + rows * cols)
              (st(obj \<mapsto> Block value))))"

definition save_values :: "real list \<Rightarrow> (ref \<times> size) list \<Rightarrow> store \<Rightarrow> error option \<times> store" where
  "save_values result_vec objects st = save_values_from result_vec objects 0 st"

definition variable_object :: "variable \<Rightarrow> ref \<times> size" where
  "variable_object v = (VariableRef (v_id v), v_size v)"

definition constraint_object :: "affine \<Rightarrow> ref \<times> size" where
  "constraint_object a = (ConstraintRef (a_oid a), a_size a)"

definition slots :: "size list \<Rightarrow> nat" where
  "slots sizes = (\<Sum>s \<leftarrow> sizes. fst s * snd s)"

text \<open>
  Following the spec's words: a flat result vector is split back into per-object blocks
  by each object's declared shape, in the order of the objects. \<open>offset_of\<close> is the
  offset of object \<open>i\<close>, the sum of the sizes before it. The read of object \<open>i\<close> is out of
  range when the object is 1 by 1 and its offset is past the end of the vector;
  \<open>saved_count\<close> counts the objects before the first such read. \<open>written_value\<close> is the
  value an object receives: the entry at its offset for a 1 by 1 object, otherwise the
  dense block of its slice in column-major order, an entry past the end of the vector
  being the zero that \<open>block_copy\<close> leaves. \<open>write_list\<close> lists the writes made, in
  order, and \<open>after_writes\<close> is the store after them, a later write to an object
  replacing an earlier one.
\<close>

definition offset_of :: "nat \<Rightarrow> (ref \<times> size) list \<Rightarrow> nat \<Rightarrow> nat" where
  "offset_of start objects i = start + slots (map snd (take i objects))"

definition out_of_range :: "real list \<Rightarrow> nat \<Rightarrow> (ref \<times> size) list \<Rightarrow> nat \<Rightarrow> bool" where
  "out_of_range result_vec start objects i =
     (snd (objects ! i) = (1, 1) \<and> length result_vec \<le> offset_of start objects i)"

definition saved_count :: "real list \<Rightarrow> nat \<Rightarrow> (ref \<times> size) list \<Rightarrow> nat" where
  "saved_count result_vec start objects =
     length (takeWhile (\<lambda>i. \<not> out_of_range result_vec start objects i) [0..<length objects])"

definition written_value :: "real list \<Rightarrow> nat \<Rightarrow> size \<Rightarrow> saved" where
  "written_value result_vec offset sz =
     (if sz = (1, 1) then Scalar (result_vec ! offset)
      else Block
        \<lparr>m_target = DENSE_TARGET, m_size = sz,
         m_rows =
           map (\<lambda>i. map (\<lambda>j. if offset + (j * fst sz + i) < length result_vec
                              then result_vec ! (offset + (j * fst sz + i)) else 0)
                         [0..<snd sz])
               [0..<fst sz]\<rparr>)"

definition write_list :: "real list \<Rightarrow> nat \<Rightarrow> (ref \<times> size) list \<Rightarrow> (ref \<times> saved) list" where
  "write_list result_vec start objects =
     map (\<lambda>i. (fst (objects ! i),
                written_value result_vec (offset_of start objects i) (snd (objects ! i))))
         [0..<saved_count result_vec start objects]"

definition after_writes :: "store \<Rightarrow> (ref \<times> saved) list \<Rightarrow> store" where
  "after_writes st writes = st ++ map_of (rev writes)"

text \<open>
  \<open>_solve\<close>, lines 74 to 82: canonicalization, variable enumeration and the five matrices.
  \<open>size\<close>, \<open>variables()\<close> and \<open>coefficients()\<close> are read from the objects of the two
  buckets through \<open>as_affine\<close>.
\<close>

record assembled =
  asm_objective :: affine
  asm_eq_constr :: "affine list"
  asm_ineq_constr :: "affine list"
  asm_variables :: "variable list"
  asm_args :: solver_args

definition assemble ::
  "(constr list \<Rightarrow> constr list) \<Rightarrow> problem \<Rightarrow> error + assembled" where
  "assemble enum p =
     (case canonicalize enum p of
        Inl e \<Rightarrow> Inl e
      | Inr (objective, eq_constr, ineq_constr, dims) \<Rightarrow>
         (case mapE as_affine eq_constr of
            Inl e \<Rightarrow> Inl e
          | Inr eq_constr \<Rightarrow>
             (case mapE as_affine ineq_constr of
                Inl e \<Rightarrow> Inl e
              | Inr ineq_constr \<Rightarrow>
                 (case variables objective (eq_constr @ ineq_constr) of
                    Inl e \<Rightarrow> Inl e
                  | Inr vars \<Rightarrow>
                     (let var_ids = variable_ids vars;
                          c = matrix_T (constraints_matrix [objective] var_ids
                                          (p_dense_interface p));
                          A = constraints_matrix eq_constr var_ids (p_interface p);
                          b = matrix_neg (constraints_matrix eq_constr [CONSTANT]
                                            (p_dense_interface p));
                          G = constraints_matrix ineq_constr var_ids (p_interface p);
                          h = matrix_neg (constraints_matrix ineq_constr [CONSTANT]
                                            (p_dense_interface p))
                      in Inr \<lparr>asm_objective = objective,
                              asm_eq_constr = eq_constr,
                              asm_ineq_constr = ineq_constr,
                              asm_variables = vars,
                              asm_args = \<lparr>arg_c = c, arg_G = G, arg_h = h,
                                          arg_A = A, arg_b = b, arg_dims = dims\<rparr>\<rparr>)))))"

text \<open>\<open>_solve\<close>, lines 84 to 95: the choice of the backend and what is read from its result.\<close>

definition run_backend ::
  "(solver_args \<Rightarrow> conelp_results) \<Rightarrow> (solver_args \<Rightarrow> ecos_results)
     \<Rightarrow> problem \<Rightarrow> solver_args \<Rightarrow> backend \<times> report" where
  "run_backend conelp ecos p args =
     (if length (dims_s (arg_dims args)) > 0
         \<or> min (fst (m_size (arg_G args))) (snd (m_size (arg_G args))) = 0
         \<or> TARGET_MATRIX (p_interface p) = DENSE_TARGET
      then
        (let results = conelp args;
             status = conelp_status results;
             solved = (status = ''optimal'');
             primal_val = conelp_primal_objective results
         in (CVXOPT_CONELP,
             \<lparr>r_solved = solved, r_status = status, r_primal_val = primal_val,
              r_x = conelp_x results, r_y = conelp_y results, r_z = conelp_z results\<rparr>))
      else
        (let results = ecos args;
             solved = (ecos_exitFlag results = 0);
             status = ecos_infostring results;
             primal_val = ecos_pcost results
         in (ECOS,
             \<lparr>r_solved = solved, r_status = status, r_primal_val = primal_val,
              r_x = ecos_x results, r_y = ecos_y results, r_z = ecos_z results\<rparr>)))"

text \<open>
  \<open>_solve\<close> as a whole (named \<open>solve_internal\<close>, an identifier cannot begin with an
  underscore). An outcome is what a caller can observe: the lines printed, the backend
  calls made with their arguments, the value returned or the exception raised, and the
  store.
\<close>

datatype answer = Value real | Status string

record outcome =
  o_printed :: "string list"
  o_called :: "(backend \<times> solver_args) list"
  o_returned :: "error + answer"
  o_store :: store

definition solve_internal ::
  "(solver_args \<Rightarrow> conelp_results) \<Rightarrow> (solver_args \<Rightarrow> ecos_results)
     \<Rightarrow> (constr list \<Rightarrow> constr list) \<Rightarrow> problem \<Rightarrow> store \<Rightarrow> outcome" where
  "solve_internal conelp ecos enum p st =
     (let printed = (if \<not> is_dcp p then [''Problem does not follow DCP rules.''] else [])
      in case assemble enum p of
           Inl e \<Rightarrow>
             \<lparr>o_printed = printed, o_called = [], o_returned = Inl e, o_store = st\<rparr>
         | Inr asm \<Rightarrow>
            (let (backend, results) = run_backend conelp ecos p (asm_args asm);
                 called = [(backend, asm_args asm)]
             in if r_solved results then
                  (case save_values (r_x results)
                          (map variable_object (asm_variables asm)) st of
                     (Some e, st) \<Rightarrow>
                       \<lparr>o_printed = printed, o_called = called,
                        o_returned = Inl e, o_store = st\<rparr>
                   | (None, st) \<Rightarrow>
                      (case save_values (r_y results)
                              (map constraint_object (asm_eq_constr asm)) st of
                         (Some e, st) \<Rightarrow>
                           \<lparr>o_printed = printed, o_called = called,
                            o_returned = Inl e, o_store = st\<rparr>
                       | (None, st) \<Rightarrow>
                          (case save_values (r_z results)
                                  (map constraint_object (asm_ineq_constr asm)) st of
                             (Some e, st) \<Rightarrow>
                               \<lparr>o_printed = printed, o_called = called,
                                o_returned = Inl e, o_store = st\<rparr>
                           | (None, st) \<Rightarrow>
                               \<lparr>o_printed = printed, o_called = called,
                                o_returned =
                                  Inr (Value (o_value (p_objective p)
                                                (r_primal_val results))),
                                o_store = st\<rparr>)))
                else
                  \<lparr>o_printed = printed, o_called = called,
                   o_returned = Inr (Status (r_status results)), o_store = st\<rparr>))"

section \<open>The affine term algebra\<close>

text \<open>
  Modelled from the spec: cvxpy.expressions.affine is not among the sources, only its
  tests are (test\_affine\_objective.py). An affine expression is a collection of terms
  and a shape; a term is a chain of factors with one leaf, a variable or a constant,
  followed by the constants it is multiplied by, so \<open>deque([x, A])\<close> is the leaf \<open>x\<close> with
  the chain \<open>[A]\<close>. A numeric block is a list of rows.
\<close>

type_synonym block = "real list list"

datatype leaf = VariableLeaf variable | ConstantLeaf block

record aff_term =
  term_leaf :: leaf
  term_chain :: "block list"

record AffObjective =
  ao_terms :: "aff_term list"
  ao_shape :: size

definition variable_bearing :: "AffObjective \<Rightarrow> bool" where
  "variable_bearing a =
     list_ex (\<lambda>t. case term_leaf t of VariableLeaf v \<Rightarrow> True | ConstantLeaf c \<Rightarrow> False)
       (ao_terms a)"

text \<open>
  Modelled from the spec: for the sum the shapes must match exactly, else
  \<open>Exception("Incompatible dimensions.")\<close> as in \<open>test_add\<close>; the terms are concatenated.
\<close>

definition add :: "AffObjective \<Rightarrow> AffObjective \<Rightarrow> error + AffObjective" where
  "add a b =
     (if ao_shape a \<noteq> ao_shape b then Inl IncompatibleDimensions
      else Inr \<lparr>ao_terms = ao_terms a @ ao_terms b, ao_shape = ao_shape a\<rparr>)"

text \<open>
  Modelled from the spec: the product of two variable-bearing operands is refused as
  non-affine; otherwise the factors of every term of the operand without variables are
  attached to every term of the other. \<open>test_mul\<close> expects \<open>"Incompatible dimensions."\<close> for
  the product of the two variable-bearing 2 by 1 operands \<open>xAff\<close> and \<open>yAff\<close>, so the
  dimension check (the columns of the left operand against the rows of the right one)
  comes before the non-affine check.
\<close>

definition constant_factors :: "aff_term \<Rightarrow> block list" where
  "constant_factors t =
     (case term_leaf t of ConstantLeaf c \<Rightarrow> [c] | VariableLeaf v \<Rightarrow> []) @ term_chain t"

definition attach :: "aff_term \<Rightarrow> aff_term \<Rightarrow> aff_term" where
  "attach tc tv = tv\<lparr>term_chain := term_chain tv @ constant_factors tc\<rparr>"

definition mul :: "AffObjective \<Rightarrow> AffObjective \<Rightarrow> error + AffObjective" where
  "mul a b =
     (if snd (ao_shape a) \<noteq> fst (ao_shape b) then Inl IncompatibleDimensions
      else if variable_bearing a \<and> variable_bearing b then Inl NonAffine
      else Inr \<lparr>ao_terms =
                  (if variable_bearing a
                   then concat (map (\<lambda>tc. map (attach tc) (ao_terms a)) (ao_terms b))
                   else concat (map (\<lambda>tc. map (attach tc) (ao_terms b)) (ao_terms a))),
                ao_shape = (fst (ao_shape a), snd (ao_shape b))\<rparr>)"

text \<open>
  Modelled from the spec: \<open>coefficients\<close> walks every term, reduces it to the blocks of
  its leaf, each multiplied by the constants of the chain, and adds each block into the
  dict under its slot id; a block under an id that is already there is summed with it.
  A variable leaf of size r by c has one slot per entry, with the r by c unit block of
  that entry; a constant leaf is keyed by \<open>CONSTANT\<close>. Numbers are exact reals, and the
  numeric interface, which only chooses the representation of a block, is left out.
\<close>

definition block_add :: "block \<Rightarrow> block \<Rightarrow> block" where
  "block_add x y = map2 (map2 (+)) x y"

definition block_mul :: "block \<Rightarrow> block \<Rightarrow> block" where
  "block_mul x y = map (\<lambda>row. map (\<lambda>col. sum_list (map2 (*) row col)) (transpose y)) x"

definition unit_block :: "size \<Rightarrow> nat \<Rightarrow> nat \<Rightarrow> block" where
  "unit_block sz row col =
     map (\<lambda>i. map (\<lambda>j. if i = row \<and> j = col then 1 else 0) [0..<snd sz]) [0..<fst sz]"

definition leaf_coefficients :: "leaf \<Rightarrow> (slot \<times> block) list" where
  "leaf_coefficients l =
     (case l of
        VariableLeaf v \<Rightarrow>
          concat (map (\<lambda>col. map (\<lambda>row. (index_id v row col, unit_block (v_size v) row col))
                                [0..<fst (v_size v)])
                      [0..<snd (v_size v)])
      | ConstantLeaf c \<Rightarrow> [(CONSTANT, c)])"

definition term_coefficients :: "aff_term \<Rightarrow> (slot \<times> block) list" where
  "term_coefficients t =
     map (\<lambda>(k, b). (k, fold block_mul (term_chain t) b)) (leaf_coefficients (term_leaf t))"

definition accumulate :: "slot \<times> block \<Rightarrow> (slot \<rightharpoonup> block) \<Rightarrow> (slot \<rightharpoonup> block)" where
  "accumulate kb m =
     (case m (fst kb) of
        None \<Rightarrow> m(fst kb \<mapsto> snd kb)
      | Some b \<Rightarrow> m(fst kb \<mapsto> block_add b (snd kb)))"

definition coefficients :: "AffObjective \<Rightarrow> (slot \<rightharpoonup> block)" where
  "coefficients a =
     fold (\<lambda>t m. fold accumulate (term_coefficients t) m) (ao_terms a) Map.empty"

text \<open>
  Following the spec's words: the blockwise sum of two coefficient maps, each
  zero-extended over the union of the slot ids.
\<close>

definition coefficient_sum :: "(slot \<rightharpoonup> block) \<Rightarrow> (slot \<rightharpoonup> block) \<Rightarrow> (slot \<rightharpoonup> block)" where
  "coefficient_sum m n =
     (\<lambda>k. case m k of
             None \<Rightarrow> n k
           | Some x \<Rightarrow> (case n k of None \<Rightarrow> Some x | Some y \<Rightarrow> Some (block_add x y)))"

section \<open>Concrete objects\<close>

text \<open>Two \<open>AffLeqConstraint\<close> objects that differ in identity only, and a small problem.\<close>

definition leq_1 :: constr where
  "leq_1 = AffLeqConstraint
     \<lparr>a_oid = 1, a_size = (2, 1), a_variables = [], a_coefficients = (\<lambda>t s. None)\<rparr>"

definition leq_2 :: constr where
  "leq_2 = AffLeqConstraint
     \<lparr>a_oid = 2, a_size = (2, 1), a_variables = [], a_coefficients = (\<lambda>t s. None)\<rparr>"

definition eq_3 :: constr where
  "eq_3 = AffEqConstraint
     \<lparr>a_oid = 3, a_size = (1, 1), a_variables = [], a_coefficients = (\<lambda>t s. None)\<rparr>"

definition soc_4 :: constr where
  "soc_4 = SOC 4 3
     [\<lparr>a_oid = 5, a_size = (1, 1), a_variables = [], a_coefficients = (\<lambda>t s. None)\<rparr>,
      \<lparr>a_oid = 6, a_size = (2, 1), a_variables = [], a_coefficients = (\<lambda>t s. None)\<rparr>]"

definition objective_0 :: affine where
  "objective_0 =
     \<lparr>a_oid = 0, a_size = (1, 1), a_variables = [], a_coefficients = (\<lambda>t s. None)\<rparr>"

definition problem_1 :: problem where
  "problem_1 = Problem
     \<lparr>o_is_dcp = True, o_canonical_form = (objective_0, [leq_1, soc_4]), o_value = (\<lambda>v. v)\<rparr>
     [\<lparr>k_is_dcp = True, k_canonical_form_1 = [eq_3, leq_1]\<rparr>]
     SPARSE_TARGET"

definition vx :: variable where "vx = \<lparr>v_id = ''var9'', v_size = (2, 2)\<rparr>"

definition vy :: variable where "vy = \<lparr>v_id = ''var10'', v_size = (1, 1)\<rparr>"

definition vz :: variable where "vz = \<lparr>v_id = ''x'', v_size = (2, 1)\<rparr>"

definition xs2 :: variable where "xs2 = \<lparr>v_id = ''x'', v_size = (2, 1)\<rparr>"

definition cex :: "interface \<Rightarrow> slot \<Rightarrow> real list option" where
  "cex t = [Slot ''x'' 0 0 \<mapsto> [1, 0], Slot ''x'' 1 0 \<mapsto> [0, 1], CONSTANT \<mapsto> [-3, -4]]"

definition a7 :: affine where
  "a7 = \<lparr>a_oid = 7, a_size = (2, 1), a_variables = [xs2], a_coefficients = cex\<rparr>"

definition objective_2 :: affine where
  "objective_2 = \<lparr>a_oid = 0, a_size = (1, 1), a_variables = [xs2],
          a_coefficients = (\<lambda>t. [Slot ''x'' 0 0 \<mapsto> [1], Slot ''x'' 1 0 \<mapsto> [1]])\<rparr>"

definition problem_2 :: problem where
  "problem_2 = Problem
     \<lparr>o_is_dcp = True,
      o_canonical_form =
        (objective_2, []),
      o_value = (\<lambda>v. v)\<rparr>
     [\<lparr>k_is_dcp = False, k_canonical_form_1 = [AffLeqConstraint a7]\<rparr>]
     SPARSE_TARGET"

definition conelp_fixed :: "solver_args \<Rightarrow> conelp_results" where
  "conelp_fixed args =
     \<lparr>conelp_status = ''optimal'', conelp_primal_objective = 7,
      conelp_x = [3, 4], conelp_y = [], conelp_z = [0, 0]\<rparr>"

definition ecos_fixed :: "solver_args \<Rightarrow> ecos_results" where
  "ecos_fixed args =
     \<lparr>ecos_x = [3, 4], ecos_y = [], ecos_z = [5, 6], ecos_exitFlag = 0,
      ecos_infostring = ''Optimal solution found'', ecos_pcost = 7\<rparr>"

definition ecos_failing :: "solver_args \<Rightarrow> ecos_results" where
  "ecos_failing args =
     \<lparr>ecos_x = [], ecos_y = [], ecos_z = [], ecos_exitFlag = 1,
      ecos_infostring = ''Primal infeasible'', ecos_pcost = 0\<rparr>"

text \<open>The objects of \<open>setUp\<close> in test\_affine\_objective.py.\<close>

definition x_var :: variable where "x_var = \<lparr>v_id = ''x'', v_size = (2, 1)\<rparr>"

definition y_var :: variable where "y_var = \<lparr>v_id = ''y'', v_size = (2, 1)\<rparr>"

definition A_const :: block where "A_const = [[1, 1], [2, 2]]"

definition xAff :: AffObjective where
  "xAff = \<lparr>ao_terms = [\<lparr>term_leaf = VariableLeaf x_var, term_chain = []\<rparr>], ao_shape = (2, 1)\<rparr>"

definition yAff :: AffObjective where
  "yAff = \<lparr>ao_terms = [\<lparr>term_leaf = VariableLeaf y_var, term_chain = []\<rparr>], ao_shape = (2, 1)\<rparr>"

definition constAff :: AffObjective where
  "constAff = \<lparr>ao_terms = [\<lparr>term_leaf = ConstantLeaf A_const, term_chain = []\<rparr>], ao_shape = (2, 2)\<rparr>"

text \<open>A variable-bearing 1 by 2 operand, for a product whose shapes are compatible.\<close>

definition zAff :: AffObjective where
  "zAff = \<lparr>ao_terms = [\<lparr>term_leaf = VariableLeaf \<lparr>v_id = ''z'', v_size = (1, 2)\<rparr>, term_chain = []\<rparr>],
           ao_shape = (1, 2)\<rparr>"

text \<open>Two collections of the same three variables, in different orders.\<close>

definition objective_a :: affine where
  "objective_a = \<lparr>a_oid = 0, a_size = (1, 1), a_variables = [vx, vz],
                  a_coefficients = (\<lambda>t s. None)\<rparr>"

definition constraint_a :: affine where
  "constraint_a = \<lparr>a_oid = 1, a_size = (1, 1), a_variables = [vy, vx],
                   a_coefficients = (\<lambda>t s. None)\<rparr>"

definition objective_b :: affine where
  "objective_b = \<lparr>a_oid = 0, a_size = (1, 1), a_variables = [vy],
                  a_coefficients = (\<lambda>t s. None)\<rparr>"

definition constraint_b :: affine where
  "constraint_b = \<lparr>a_oid = 1, a_size = (1, 1), a_variables = [vz, vx, vz],
                   a_coefficients = (\<lambda>t s. None)\<rparr>"

text \<open>
  A problem with one scalar variable, one scalar equality and one scalar inequality
  constraint, and a backend that reports success with an empty vector of inequality
  duals.
\<close>

definition x1 :: variable where "x1 = \<lparr>v_id = ''x'', v_size = (1, 1)\<rparr>"

definition objective_3 :: affine where
  "objective_3 = \<lparr>a_oid = 0, a_size = (1, 1), a_variables = [x1],
                  a_coefficients = (\<lambda>t. [Slot ''x'' 0 0 \<mapsto> [1]])\<rparr>"

definition e8 :: affine where
  "e8 = \<lparr>a_oid = 8, a_size = (1, 1), a_variables = [x1],
         a_coefficients = (\<lambda>t. [Slot ''x'' 0 0 \<mapsto> [1], CONSTANT \<mapsto> [-1]])\<rparr>"

definition l9 :: affine where
  "l9 = \<lparr>a_oid = 9, a_size = (1, 1), a_variables = [x1],
         a_coefficients = (\<lambda>t. [Slot ''x'' 0 0 \<mapsto> [-1]])\<rparr>"

definition problem_3 :: problem where
  "problem_3 = Problem
     \<lparr>o_is_dcp = True, o_canonical_form = (objective_3, []), o_value = (\<lambda>v. v)\<rparr>
     [\<lparr>k_is_dcp = True, k_canonical_form_1 = [AffEqConstraint e8]\<rparr>,
      \<lparr>k_is_dcp = True, k_canonical_form_1 = [AffLeqConstraint l9]\<rparr>]
     SPARSE_TARGET"

definition ecos_short :: "solver_args \<Rightarrow> ecos_results" where
  "ecos_short args =
     \<lparr>ecos_x = [1], ecos_y = [2], ecos_z = [], ecos_exitFlag = 0,
      ecos_infostring = ''Optimal solution found'', ecos_pcost = 1\<rparr>"

section \<open>Auxiliary facts\<close>

subsection \<open>The buckets and the canonical program\<close>

lemma mapE_as_affine_leq: "mapE as_affine (map AffLeqConstraint as) = Inr as"
  by (induction as) auto

lemma filter_leq_shape:
  "\<exists>as. [c \<leftarrow> cs. isinstance_AffLeqConstraint c] = map AffLeqConstraint as"
proof (induction cs)
  case Nil
  then show ?case by simp
next
  case (Cons c cs)
  then obtain as where as: "[c \<leftarrow> cs. isinstance_AffLeqConstraint c] = map AffLeqConstraint as"
    by blast
  show ?case
  proof (cases c)
    case (AffLeqConstraint a)
    then have "[c \<leftarrow> c # cs. isinstance_AffLeqConstraint c] = map AffLeqConstraint (a # as)"
      using as by simp
    then show ?thesis by blast
  qed (use as in auto)
qed

lemma filter_soc_shape:
  "\<exists>ss. [c \<leftarrow> cs. isinstance_SOC c] = map soc_triple ss"
proof (induction cs)
  case Nil
  then show ?case by simp
next
  case (Cons c cs)
  then obtain ss where ss: "[c \<leftarrow> cs. isinstance_SOC c] = map soc_triple ss"
    by blast
  show ?case
  proof (cases c)
    case (SOC i n f)
    then have "[c \<leftarrow> c # cs. isinstance_SOC c] = map soc_triple ((i, n, f) # ss)"
      using ss by simp
    then show ?thesis by blast
  qed (use ss in auto)
qed

lemma mapE_format_soc:
  "mapE format (map soc_triple ss) = Inr (map (\<lambda>(i, n, f). map AffLeqConstraint f) ss)"
  by (induction ss) auto

lemma mapE_cone_size_soc:
  "mapE cone_size (map soc_triple ss) = Inr (map (\<lambda>(i, n, f). n) ss)"
  by (induction ss) auto

lemma count_list_distinct:
  "distinct xs \<Longrightarrow> x \<in> set xs \<Longrightarrow> count_list xs x = 1"
  by (induction xs) (auto simp add: count_list_0_iff)

lemma count_list_filter:
  "count_list (filter P xs) x = (if P x then count_list xs x else 0)"
  by (induction xs) auto

lemma canonicalize_result:
  assumes "filter_constraints enum (combined_constraints p) = (eq, ineq, soc)"
  shows "\<exists>as (ss :: (nat \<times> nat \<times> affine list) list).
           ineq = map AffLeqConstraint as \<and> soc = map soc_triple ss \<and>
           canonicalize enum p =
             Inr (fst (o_canonical_form (p_objective p)), eq,
                  ineq @ concat (map (\<lambda>(i, n, f). map AffLeqConstraint f) ss),
                  \<lparr>dims_l = (\<Sum>a \<leftarrow> as. fst (a_size a) * snd (a_size a)),
                   dims_q = map (\<lambda>(i, n, f). n) ss,
                   dims_s = []\<rparr>)"
proof -
  from assms have ineq: "ineq = [c \<leftarrow> enum (combined_constraints p). isinstance_AffLeqConstraint c]"
    and soc: "soc = [c \<leftarrow> enum (combined_constraints p). isinstance_SOC c]"
    by (simp_all add: filter_constraints_def Let_def)
  obtain as where as: "ineq = map AffLeqConstraint as"
    using ineq filter_leq_shape by blast
  obtain ss where ss: "soc = map soc_triple ss"
    using soc filter_soc_shape by blast
  have "canonicalize enum p =
             Inr (fst (o_canonical_form (p_objective p)), eq,
                  ineq @ concat (map (\<lambda>(i, n, f). map AffLeqConstraint f) ss),
                  \<lparr>dims_l = (\<Sum>a \<leftarrow> as. fst (a_size a) * snd (a_size a)),
                   dims_q = map (\<lambda>(i, n, f). n) ss,
                   dims_s = []\<rparr>)"
    unfolding canonicalize_def Let_def assms
    by (simp add: as ss mapE_as_affine_leq mapE_format_soc mapE_cone_size_soc)
  with as ss show ?thesis by blast
qed

lemma combined_problem_1: "combined_constraints problem_1 = [leq_1, soc_4, eq_3, leq_1]"
  by (simp add: combined_constraints_def problem_1_def Problem_def)

lemma remdups_problem_1: "remdups [leq_1, soc_4, eq_3, leq_1] = [soc_4, eq_3, leq_1]"
  by (simp add: leq_1_def soc_4_def eq_3_def)

lemma filter_problem_1:
  "filter_constraints remdups (combined_constraints problem_1) = ([eq_3], [leq_1], [soc_4])"
  unfolding combined_problem_1 filter_constraints_def Let_def remdups_problem_1
  by (simp add: leq_1_def soc_4_def eq_3_def)

lemma mapE_all:
  "(\<And>x. x \<in> set xs \<Longrightarrow> f x = Inr (g x)) \<Longrightarrow> mapE f xs = Inr (map g xs)"
  by (induction xs) auto

lemma mapE_as_affine_eq: "mapE as_affine (map AffEqConstraint as) = Inr as"
  by (induction as) auto

lemma filter_eq_shape:
  "\<exists>as. [c \<leftarrow> cs. isinstance_AffEqConstraint c] = map AffEqConstraint as"
proof (induction cs)
  case Nil
  then show ?case by simp
next
  case (Cons c cs)
  then obtain as where as: "[c \<leftarrow> cs. isinstance_AffEqConstraint c] = map AffEqConstraint as"
    by blast
  show ?case
  proof (cases c)
    case (AffEqConstraint a)
    then have "[c \<leftarrow> c # cs. isinstance_AffEqConstraint c] = map AffEqConstraint (a # as)"
      using as by simp
    then show ?thesis by blast
  qed (use as in auto)
qed

lemma concat_format_leq:
  "concat (map (\<lambda>(i, n, f). map AffLeqConstraint f) ss)
     = map AffLeqConstraint (concat (map (\<lambda>(i, n, f). f) ss))"
  by (induction ss) auto

lemma canonicalize_buckets:
  "\<exists>obj es ls d. canonicalize enum p =
       Inr (obj, map AffEqConstraint es, map AffLeqConstraint ls, d) \<and> dims_s d = []"
proof -
  obtain eq ineq soc where f: "filter_constraints enum (combined_constraints p) = (eq, ineq, soc)"
    by (cases "filter_constraints enum (combined_constraints p)") auto
  then have "eq = [c \<leftarrow> enum (combined_constraints p). isinstance_AffEqConstraint c]"
    by (simp add: filter_constraints_def Let_def)
  with filter_eq_shape obtain es where es: "eq = map AffEqConstraint es"
    by blast
  from canonicalize_result [OF f]
  obtain as and ss :: "(nat \<times> nat \<times> affine list) list" where
    as: "ineq = map AffLeqConstraint as" and
    c: "canonicalize enum p =
             Inr (fst (o_canonical_form (p_objective p)), eq,
                  ineq @ concat (map (\<lambda>(i, n, f). map AffLeqConstraint f) ss),
                  \<lparr>dims_l = (\<Sum>a \<leftarrow> as. fst (a_size a) * snd (a_size a)),
                   dims_q = map (\<lambda>(i, n, f). n) ss,
                   dims_s = []\<rparr>)"
    by (elim exE conjE) (rule that)
  have "ineq @ concat (map (\<lambda>(i, n, f). map AffLeqConstraint f) ss)
          = map AffLeqConstraint (as @ concat (map (\<lambda>(i, n, f). f) ss))"
    by (simp add: as concat_format_leq)
  with c es have "canonicalize enum p =
       Inr (fst (o_canonical_form (p_objective p)), map AffEqConstraint es,
            map AffLeqConstraint (as @ concat (map (\<lambda>(i, n, f). f) ss)),
            \<lparr>dims_l = (\<Sum>a \<leftarrow> as. fst (a_size a) * snd (a_size a)),
             dims_q = map (\<lambda>(i, n, f). n) ss,
             dims_s = []\<rparr>)"
    by simp
  moreover have "dims_s \<lparr>dims_l = (\<Sum>a \<leftarrow> as. fst (a_size a) * snd (a_size a)),
             dims_q = map (\<lambda>(i, n, f). n) ss,
             dims_s = []\<rparr> = []"
    by simp
  ultimately show ?thesis by blast
qed

subsection \<open>The sorted variable list and the slots\<close>

lemma var_dict_Some: "var_dict vars k = Some v \<Longrightarrow> v \<in> set vars \<and> v_id v = k"
  unfolding var_dict_def by (auto dest!: map_of_SomeD)

lemma var_dict_key: "k \<in> set (map v_id vars) \<Longrightarrow> \<exists>v. var_dict vars k = Some v"
proof -
  assume "k \<in> set (map v_id vars)"
  then have "k \<in> fst ` set (rev (map (\<lambda>v. (v_id v, v)) vars))"
    by force
  then have "var_dict vars k \<noteq> None"
    unfolding var_dict_def by (simp only: map_of_eq_None_iff not_not)
  then show ?thesis by blast
qed

lemma var_dict_inj:
  assumes "inj_on v_id (set vars)" and "v \<in> set vars"
  shows "var_dict vars (v_id v) = Some v"
proof -
  from assms(2) obtain w where w: "var_dict vars (v_id v) = Some w"
    using var_dict_key [of "v_id v" vars] by auto
  then have "w \<in> set vars" "v_id w = v_id v"
    using var_dict_Some by blast+
  with assms have "w = v" by (auto dest: inj_onD)
  with w show ?thesis by simp
qed

lemma variables_eq:
  "variables objective constraints =
     Inr (map (\<lambda>k. the (var_dict (collect_variables objective constraints) k))
            (sort (remdups (map v_id (collect_variables objective constraints)))))"
  unfolding variables_def Let_def
proof (rule mapE_all)
  fix k
  assume "k \<in> set (sort (remdups (map v_id (collect_variables objective constraints))))"
  then have "k \<in> set (map v_id (collect_variables objective constraints))" by simp
  from var_dict_key [OF this] obtain v where
    "var_dict (collect_variables objective constraints) k = Some v" by blast
  then show "(case var_dict (collect_variables objective constraints) k of
          None \<Rightarrow> Inl KeyError | Some v \<Rightarrow> Inr v) =
         Inr (the (var_dict (collect_variables objective constraints) k))"
    by simp
qed

lemma variables_ids_sorted:
  assumes "variables objective constraints = Inr vs"
  shows "map v_id vs = sort (remdups (map v_id (collect_variables objective constraints)))"
proof -
  let ?vars = "collect_variables objective constraints"
  have "\<And>k. k \<in> set (sort (remdups (map v_id ?vars))) \<Longrightarrow> v_id (the (var_dict ?vars k)) = k"
  proof -
    fix k assume "k \<in> set (sort (remdups (map v_id ?vars)))"
    then have "k \<in> set (map v_id ?vars)" by simp
    from var_dict_key [OF this] obtain v where v: "var_dict ?vars k = Some v" by blast
    with var_dict_Some [OF v] show "v_id (the (var_dict ?vars k)) = k" by simp
  qed
  then have "map (\<lambda>k. v_id (the (var_dict ?vars k))) (sort (remdups (map v_id ?vars)))
             = sort (remdups (map v_id ?vars))"
    by (intro map_idI)
  with assms show ?thesis
    by (auto simp add: variables_eq comp_def)
qed

lemma variables_subset:
  assumes "variables objective constraints = Inr vs"
  shows "set vs \<subseteq> set (collect_variables objective constraints)"
proof
  let ?vars = "collect_variables objective constraints"
  fix v assume "v \<in> set vs"
  with assms have "v \<in> (\<lambda>k. the (var_dict ?vars k)) ` set (map v_id ?vars)"
    by (auto simp add: variables_eq)
  then obtain k where k: "k \<in> set (map v_id ?vars)" "v = the (var_dict ?vars k)"
    by blast
  from var_dict_key [OF k(1)] obtain w where w: "var_dict ?vars k = Some w" by blast
  with var_dict_Some [OF w] k(2) show "v \<in> set ?vars" by simp
qed

lemma variables_order_independent:
  assumes "set (collect_variables objective constraints) = set (collect_variables objective' constraints')"
    and "inj_on v_id (set (collect_variables objective constraints))"
  shows "variables objective constraints = variables objective' constraints'"
proof -
  let ?vars = "collect_variables objective constraints"
  let ?vars' = "collect_variables objective' constraints'"
  have keys: "sort (remdups (map v_id ?vars)) = sort (remdups (map v_id ?vars'))"
  proof -
    have "set (map v_id ?vars) = set (map v_id ?vars')" using assms(1) by simp
    then have "sorted_list_of_set (set (map v_id ?vars)) = sorted_list_of_set (set (map v_id ?vars'))"
      by simp
    then show ?thesis by (simp only: sorted_list_of_set_sort_remdups)
  qed
  have "\<And>k. k \<in> set (sort (remdups (map v_id ?vars))) \<Longrightarrow> var_dict ?vars k = var_dict ?vars' k"
  proof -
    fix k assume "k \<in> set (sort (remdups (map v_id ?vars)))"
    then obtain v where v: "v \<in> set ?vars" "v_id v = k" by auto
    from assms have inj': "inj_on v_id (set ?vars')" and v': "v \<in> set ?vars'"
      using v by auto
    from var_dict_inj [OF assms(2) v(1)] var_dict_inj [OF inj' v'] v(2)
    show "var_dict ?vars k = var_dict ?vars' k" by simp
  qed
  then have "map (\<lambda>k. the (var_dict ?vars k)) (sort (remdups (map v_id ?vars)))
             = map (\<lambda>k. the (var_dict ?vars' k)) (sort (remdups (map v_id ?vars)))"
    by (intro map_cong) simp_all
  then show ?thesis by (simp add: variables_eq keys)
qed

lemma length_concat_cols:
  "length (concat (map (\<lambda>col. map (f col) [0..<r]) [0..<c])) = c * r"
  by (induction c) simp_all

lemma nth_concat_cols:
  "col < c \<Longrightarrow> row < r \<Longrightarrow>
     concat (map (\<lambda>col. map (f col) [0..<r]) [0..<c]) ! (col * r + row) = f col row"
proof (induction c)
  case 0
  then show ?case by simp
next
  case (Suc c)
  show ?case
  proof (cases "col < c")
    case True
    then have "Suc col \<le> c" by simp
    then have "Suc col * r \<le> c * r" by (rule mult_le_mono1)
    with Suc.prems(2) have "col * r + row < c * r" by simp
    with Suc True show ?thesis
      by (simp add: nth_append length_concat_cols)
  next
    case False
    with Suc.prems have "col = c" by simp
    with Suc.prems show ?thesis
      by (simp add: nth_append length_concat_cols)
  qed
qed

lemma variable_ids_Cons:
  "variable_ids (var # vars) =
     concat (map (\<lambda>col. map (\<lambda>row. index_id var row col) [0..<fst (v_size var)])
                 [0..<snd (v_size var)]) @ variable_ids vars"
  by (simp add: variable_ids_def)

lemma length_variable_ids:
  "length (variable_ids vars) = (\<Sum>v \<leftarrow> vars. fst (v_size v) * snd (v_size v))"
  by (induction vars) (simp_all add: variable_ids_def length_concat_cols mult.commute)

subsection \<open>Assembly, the backend call and the write-back\<close>

lemma assemble_result: "\<exists>asm. assemble enum p = Inr asm \<and> dims_s (arg_dims (asm_args asm)) = []"
proof -
  from canonicalize_buckets [of enum p] obtain obj es ls d where
    c: "canonicalize enum p = Inr (obj, map AffEqConstraint es, map AffLeqConstraint ls, d)"
    and d: "dims_s d = []"
    by blast
  show ?thesis
    unfolding assemble_def c
    by (simp add: mapE_as_affine_eq mapE_as_affine_leq variables_eq Let_def d)
qed

lemma solve_called:
  assumes "assemble enum p = Inr asm"
  shows "o_called (solve_internal conelp ecos enum p st)
           = [(fst (run_backend conelp ecos p (asm_args asm)), asm_args asm)]"
  unfolding solve_internal_def Let_def assms
  by (simp add: split_beta split: option.splits prod.splits)

lemma run_backend_choice:
  "fst (run_backend conelp ecos p args) =
     (if 0 < length (dims_s (arg_dims args))
         \<or> min (fst (m_size (arg_G args))) (snd (m_size (arg_G args))) = 0
         \<or> TARGET_MATRIX (p_interface p) = DENSE_TARGET
      then CVXOPT_CONELP else ECOS)"
  by (auto simp add: run_backend_def Let_def)

lemma enumerate_replicate:
  "map f (enumerate 0 (replicate n x)) = map (\<lambda>i. f (i, x)) [0..<n]"
  by (rule nth_equalityI) (simp_all add: nth_enumerate_eq)

lemma block_copy_zeros:
  "block_copy (zeros (get_matrix_interface DENSE_TARGET) rows cols)
      (take (rows * cols) (drop start vec)) 0 0 rows cols
   = \<lparr>m_target = DENSE_TARGET, m_size = (rows, cols),
      m_rows =
        map (\<lambda>i. map (\<lambda>j. if start + (j * rows + i) < length vec
                           then vec ! (start + (j * rows + i)) else 0)
                      [0..<cols])
            [0..<rows]\<rparr>"
proof -
  define g where "g i j x =
      (if 0 \<le> i \<and> i < 0 + rows \<and> 0 \<le> j \<and> j < 0 + cols
            \<and> (j - 0) * rows + (i - 0) < length (take (rows * cols) (drop start vec))
       then take (rows * cols) (drop start vec) ! ((j - 0) * rows + (i - 0)) else (x::real))"
    for i j x
  have inner: "g i j 0 = (if start + (j * rows + i) < length vec
                          then vec ! (start + (j * rows + i)) else 0)"
    if i: "i < rows" and j: "j < cols" for i j
  proof -
    from j have "Suc j \<le> cols" by simp
    then have "Suc j * rows \<le> cols * rows" by (rule mult_le_mono1)
    with i have lt: "j * rows + i < rows * cols" by (simp add: mult.commute)
    show ?thesis
      unfolding g_def using i j lt by (auto simp add: less_diff_conv add.commute)
  qed
  have "map (\<lambda>(i, r). map (\<lambda>(j, x). g i j x) (enumerate 0 r))
            (enumerate 0 (replicate rows (replicate cols (0::real))))
      = map (\<lambda>i. map (\<lambda>j. g i j 0) [0..<cols]) [0..<rows]"
    by (simp add: enumerate_replicate split_def)
  also have "\<dots> = map (\<lambda>i. map (\<lambda>j. if start + (j * rows + i) < length vec
                           then vec ! (start + (j * rows + i)) else 0) [0..<cols]) [0..<rows]"
    by (intro map_cong refl) (simp add: inner)
  finally show ?thesis
    by (simp add: block_copy_def zeros_def get_matrix_interface_def g_def)
qed

lemma offset_of_0: "offset_of start objects 0 = start"
  by (simp add: offset_of_def slots_def)

lemma offset_of_Suc:
  "offset_of start (obj # objects) (Suc i)
     = offset_of (start + fst (snd obj) * snd (snd obj)) objects i"
  by (simp add: offset_of_def slots_def)

lemma out_of_range_0:
  "out_of_range vec start (obj # objects) 0 = (snd obj = (1, 1) \<and> length vec \<le> start)"
  by (simp add: out_of_range_def offset_of_0)

lemma out_of_range_Suc:
  "out_of_range vec start (obj # objects) (Suc i)
     = out_of_range vec (start + fst (snd obj) * snd (snd obj)) objects i"
  by (simp add: out_of_range_def offset_of_Suc)

lemma saved_count_Nil: "saved_count vec start [] = 0"
  by (simp add: saved_count_def)

lemma saved_count_Cons:
  "saved_count vec start (obj # objects)
     = (if snd obj = (1, 1) \<and> length vec \<le> start then 0
        else Suc (saved_count vec (start + fst (snd obj) * snd (snd obj)) objects))"
proof -
  have "[0..<Suc (length objects)] = 0 # map Suc [0..<length objects]"
    by (simp add: upt_conv_Cons map_Suc_upt del: upt_Suc)
  then show ?thesis
    by (simp add: saved_count_def out_of_range_0 takeWhile_map comp_def out_of_range_Suc
          del: upt_Suc)
qed

lemma saved_count_le: "saved_count vec start objects \<le> length objects"
  unfolding saved_count_def
  using length_takeWhile_le [of _ "[0..<length objects]"] by simp

lemma saved_count_all:
  "saved_count vec start objects = length objects
     \<longleftrightarrow> (\<forall>i < length objects. \<not> out_of_range vec start objects i)"
proof -
  let ?P = "\<lambda>i. \<not> out_of_range vec start objects i"
  let ?xs = "[0..<length objects]"
  have "length (takeWhile ?P ?xs) = length ?xs \<longleftrightarrow> takeWhile ?P ?xs = ?xs"
  proof
    assume l: "length (takeWhile ?P ?xs) = length ?xs"
    have "takeWhile ?P ?xs = take (length (takeWhile ?P ?xs)) ?xs"
      by (rule takeWhile_eq_take)
    with l show "takeWhile ?P ?xs = ?xs" by simp
  next
    assume "takeWhile ?P ?xs = ?xs"
    then show "length (takeWhile ?P ?xs) = length ?xs" by (rule arg_cong)
  qed
  also have "\<dots> \<longleftrightarrow> (\<forall>i < length objects. ?P i)"
    by (auto simp add: takeWhile_eq_all_conv)
  finally show ?thesis
    by (simp add: saved_count_def)
qed

lemma saved_count_enough:
  "start + slots (map snd objects) \<le> length vec \<Longrightarrow>
     saved_count vec start objects = length objects"
proof (induction objects arbitrary: start)
  case Nil
  then show ?case by (simp add: saved_count_Nil)
next
  case (Cons obj objects)
  from Cons.prems have le:
    "(start + fst (snd obj) * snd (snd obj)) + slots (map snd objects) \<le> length vec"
    by (simp add: slots_def)
  have "\<not> (snd obj = (1, 1) \<and> length vec \<le> start)"
    using le by auto
  with Cons.IH [OF le] show ?case
    by (simp add: saved_count_Cons)
qed

lemma write_list_Nil: "write_list vec start [] = []"
  by (simp add: write_list_def saved_count_Nil)

lemma write_list_Cons:
  "write_list vec start (obj # objects)
     = (if snd obj = (1, 1) \<and> length vec \<le> start then []
        else (fst obj, written_value vec start (snd obj))
             # write_list vec (start + fst (snd obj) * snd (snd obj)) objects)"
proof (cases "snd obj = (1, 1) \<and> length vec \<le> start")
  case True
  then show ?thesis by (simp add: write_list_def saved_count_Cons)
next
  case False
  let ?k = "saved_count vec (start + fst (snd obj) * snd (snd obj)) objects"
  have "[0..<Suc ?k] = 0 # map Suc [0..<?k]"
    by (simp add: upt_conv_Cons map_Suc_upt)
  with False show ?thesis
    by (simp add: write_list_def saved_count_Cons offset_of_0 offset_of_Suc comp_def
          del: upt_Suc)
qed

lemma write_list_all:
  "saved_count vec start objects = length objects \<Longrightarrow>
     map fst (write_list vec start objects) = map fst objects"
  by (rule nth_equalityI) (simp_all add: write_list_def)

lemma after_writes_Nil: "after_writes st [] = st"
  by (simp add: after_writes_def)

lemma after_writes_Cons: "after_writes st ((r, v) # ws) = after_writes (st(r \<mapsto> v)) ws"
proof -
  have "st ++ map_of (rev ws @ [(r, v)]) = st ++ ([r \<mapsto> v] ++ map_of (rev ws))"
    by (simp only: map_of_append) simp
  also have "\<dots> = (st ++ [r \<mapsto> v]) ++ map_of (rev ws)"
    by (simp only: map_add_assoc)
  also have "st ++ [r \<mapsto> v] = st(r \<mapsto> v)"
    by simp
  finally show ?thesis by (simp add: after_writes_def)
qed

lemma after_writes_append:
  "after_writes st (ws @ vs) = after_writes (after_writes st ws) vs"
  by (induction ws arbitrary: st) (simp_all add: after_writes_Nil after_writes_Cons split_paired_all)

lemma save_values_from_written:
  "save_values_from vec objects start st
     = (if saved_count vec start objects = length objects then None else Some IndexError,
        after_writes st (write_list vec start objects))"
proof (induction objects arbitrary: start st)
  case Nil
  then show ?case
    by (simp add: saved_count_Nil write_list_Nil after_writes_Nil)
next
  case (Cons obj objects)
  obtain r rows cols where obj: "obj = (r, (rows, cols))"
    by (cases obj) auto
  show ?case
  proof (cases "(rows, cols) = (1, 1) \<and> length vec \<le> start")
    case True
    then show ?thesis
      by (simp add: obj saved_count_Cons write_list_Cons after_writes_Nil)
  next
    case False
    then have nb: "\<not> (snd obj = (1, 1) \<and> length vec \<le> start)"
      by (simp add: obj)
    have step: "save_values_from vec (obj # objects) start st
              = save_values_from vec objects (start + rows * cols)
                  (st(r \<mapsto> written_value vec start (rows, cols)))"
    proof (cases "(rows, cols) = (1, 1)")
      case True
      with False have "start < length vec" by simp
      with True show ?thesis by (simp add: obj written_value_def)
    next
      case nonscalar: False
      have "written_value vec start (rows, cols)
            = Block (block_copy (zeros (get_matrix_interface DENSE_TARGET) rows cols)
                       (take (rows * cols) (drop start vec)) 0 0 rows cols)"
        using nonscalar
        by (simp only: block_copy_zeros written_value_def if_False fst_conv snd_conv)
      then show ?thesis
        using nonscalar by (auto simp add: obj Let_def)
    qed
    have sc: "saved_count vec start (obj # objects)
                = Suc (saved_count vec (start + rows * cols) objects)"
      using nb by (simp add: saved_count_Cons obj)
    have wl: "write_list vec start (obj # objects)
                = (r, written_value vec start (rows, cols))
                  # write_list vec (start + rows * cols) objects"
      using nb by (simp add: write_list_Cons obj)
    show ?thesis
      unfolding step Cons.IH sc wl after_writes_Cons by simp
  qed
qed

lemma save_values_written:
  "save_values vec objects st
     = (if saved_count vec 0 objects = length objects then None else Some IndexError,
        after_writes st (write_list vec 0 objects))"
  by (simp add: save_values_def save_values_from_written)

lemma solve_outcome:
  assumes "assemble enum p = Inr asm"
    and "run_backend conelp ecos p (asm_args asm) = (b, rep)"
  shows "solve_internal conelp ecos enum p st =
     (let X = map variable_object (asm_variables asm);
          Y = map constraint_object (asm_eq_constr asm);
          Z = map constraint_object (asm_ineq_constr asm);
          wx = write_list (r_x rep) 0 X;
          wy = write_list (r_y rep) 0 Y;
          wz = write_list (r_z rep) 0 Z;
          printed = (if \<not> is_dcp p then [''Problem does not follow DCP rules.''] else []);
          called = [(b, asm_args asm)]
      in if \<not> r_solved rep then
           \<lparr>o_printed = printed, o_called = called,
            o_returned = Inr (Status (r_status rep)), o_store = st\<rparr>
         else if saved_count (r_x rep) 0 X \<noteq> length X then
           \<lparr>o_printed = printed, o_called = called,
            o_returned = Inl IndexError, o_store = after_writes st wx\<rparr>
         else if saved_count (r_y rep) 0 Y \<noteq> length Y then
           \<lparr>o_printed = printed, o_called = called,
            o_returned = Inl IndexError, o_store = after_writes st (wx @ wy)\<rparr>
         else if saved_count (r_z rep) 0 Z \<noteq> length Z then
           \<lparr>o_printed = printed, o_called = called,
            o_returned = Inl IndexError, o_store = after_writes st (wx @ wy @ wz)\<rparr>
         else
           \<lparr>o_printed = printed, o_called = called,
            o_returned = Inr (Value (o_value (p_objective p) (r_primal_val rep))),
            o_store = after_writes st (wx @ wy @ wz)\<rparr>)"
  unfolding solve_internal_def Let_def assms(1)
  using assms(2)
  by (simp add: save_values_written after_writes_append)


subsection \<open>The pipeline on a concrete problem\<close>

lemma canonicalize_problem_2:
  "canonicalize remdups problem_2 =
     Inr (objective_2, [], [AffLeqConstraint a7], \<lparr>dims_l = 2, dims_q = [], dims_s = []\<rparr>)"
  by (simp add: canonicalize_def problem_2_def Problem_def combined_constraints_def
        filter_constraints_def objective_2_def a7_def)

lemma variables_problem_2: "variables objective_2 [a7] = Inr [xs2]"
  by (simp add: variables_def collect_variables_def var_dict_def objective_2_def a7_def xs2_def)

lemma ids_2: "variable_ids [xs2] = [Slot ''x'' 0 0, Slot ''x'' 1 0]"
  by (simp add: variable_ids_def xs2_def index_id_def upt_rec)

lemma G_2: "constraints_matrix [a7] [Slot ''x'' 0 0, Slot ''x'' 1 0] (get_matrix_interface SPARSE_TARGET)
   = \<lparr>m_target = SPARSE_TARGET, m_size = (2, 2), m_rows = [[1, 0], [0, 1]]\<rparr>"
  by code_simp

lemma c_2: "matrix_T (constraints_matrix [objective_2] [Slot ''x'' 0 0, Slot ''x'' 1 0] (get_matrix_interface DENSE_TARGET))
   = \<lparr>m_target = DENSE_TARGET, m_size = (2, 1), m_rows = [[1], [1]]\<rparr>"
  by code_simp

lemma h_2: "matrix_neg (constraints_matrix [a7] [CONSTANT] (get_matrix_interface DENSE_TARGET))
   = \<lparr>m_target = DENSE_TARGET, m_size = (2, 1), m_rows = [[3], [4]]\<rparr>"
  by code_simp

lemma A_2: "constraints_matrix [] [Slot ''x'' 0 0, Slot ''x'' 1 0] (get_matrix_interface SPARSE_TARGET)
   = \<lparr>m_target = SPARSE_TARGET, m_size = (0, 2), m_rows = []\<rparr>"
  by code_simp

lemma b_2: "matrix_neg (constraints_matrix [] [CONSTANT] (get_matrix_interface DENSE_TARGET))
   = \<lparr>m_target = DENSE_TARGET, m_size = (0, 1), m_rows = []\<rparr>"
  by code_simp

lemma intf_2: "p_interface problem_2 = get_matrix_interface SPARSE_TARGET"
  "p_dense_interface problem_2 = get_matrix_interface DENSE_TARGET"
  by (simp_all add: problem_2_def Problem_def)

lemma assemble_problem_2:
  "assemble remdups problem_2 =
    Inr \<lparr>asm_objective = objective_2,
        asm_eq_constr = [],
        asm_ineq_constr = [a7],
        asm_variables = [xs2],
        asm_args =
          \<lparr>arg_c = \<lparr>m_target = DENSE_TARGET, m_size = (2, 1), m_rows = [[1], [1]]\<rparr>,
           arg_G = \<lparr>m_target = SPARSE_TARGET, m_size = (2, 2), m_rows = [[1, 0], [0, 1]]\<rparr>,
           arg_h = \<lparr>m_target = DENSE_TARGET, m_size = (2, 1), m_rows = [[3], [4]]\<rparr>,
           arg_A = \<lparr>m_target = SPARSE_TARGET, m_size = (0, 2), m_rows = []\<rparr>,
           arg_b = \<lparr>m_target = DENSE_TARGET, m_size = (0, 1), m_rows = []\<rparr>,
           arg_dims = \<lparr>dims_l = 2, dims_q = [], dims_s = []\<rparr>\<rparr>\<rparr>"
  unfolding assemble_def canonicalize_problem_2
  by (simp add: variables_problem_2 Let_def ids_2 intf_2 G_2 c_2 h_2 A_2 b_2 del: One_nat_def)

lemma run_backend_problem_2:
  "run_backend conelp ecos problem_2
     \<lparr>arg_c = c, arg_G = \<lparr>m_target = SPARSE_TARGET, m_size = (2, 2), m_rows = g\<rparr>,
      arg_h = h, arg_A = A, arg_b = b',
      arg_dims = \<lparr>dims_l = 2, dims_q = [], dims_s = []\<rparr>\<rparr>
   = (ECOS,
      \<lparr>r_solved = (ecos_exitFlag (ecos \<lparr>arg_c = c, arg_G = \<lparr>m_target = SPARSE_TARGET, m_size = (2, 2), m_rows = g\<rparr>,
      arg_h = h, arg_A = A, arg_b = b',
      arg_dims = \<lparr>dims_l = 2, dims_q = [], dims_s = []\<rparr>\<rparr>) = 0),
       r_status = ecos_infostring (ecos \<lparr>arg_c = c, arg_G = \<lparr>m_target = SPARSE_TARGET, m_size = (2, 2), m_rows = g\<rparr>,
      arg_h = h, arg_A = A, arg_b = b',
      arg_dims = \<lparr>dims_l = 2, dims_q = [], dims_s = []\<rparr>\<rparr>),
       r_primal_val = ecos_pcost (ecos \<lparr>arg_c = c, arg_G = \<lparr>m_target = SPARSE_TARGET, m_size = (2, 2), m_rows = g\<rparr>,
      arg_h = h, arg_A = A, arg_b = b',
      arg_dims = \<lparr>dims_l = 2, dims_q = [], dims_s = []\<rparr>\<rparr>),
       r_x = ecos_x (ecos \<lparr>arg_c = c, arg_G = \<lparr>m_target = SPARSE_TARGET, m_size = (2, 2), m_rows = g\<rparr>,
      arg_h = h, arg_A = A, arg_b = b',
      arg_dims = \<lparr>dims_l = 2, dims_q = [], dims_s = []\<rparr>\<rparr>),
       r_y = ecos_y (ecos \<lparr>arg_c = c, arg_G = \<lparr>m_target = SPARSE_TARGET, m_size = (2, 2), m_rows = g\<rparr>,
      arg_h = h, arg_A = A, arg_b = b',
      arg_dims = \<lparr>dims_l = 2, dims_q = [], dims_s = []\<rparr>\<rparr>),
       r_z = ecos_z (ecos \<lparr>arg_c = c, arg_G = \<lparr>m_target = SPARSE_TARGET, m_size = (2, 2), m_rows = g\<rparr>,
      arg_h = h, arg_A = A, arg_b = b',
      arg_dims = \<lparr>dims_l = 2, dims_q = [], dims_s = []\<rparr>\<rparr>)\<rparr>)"
  by (simp add: run_backend_def Let_def problem_2_def Problem_def get_matrix_interface_def)

lemma canonicalize_problem_3:
  "canonicalize remdups problem_3 =
     Inr (objective_3, [AffEqConstraint e8], [AffLeqConstraint l9],
          \<lparr>dims_l = 1, dims_q = [], dims_s = []\<rparr>)"
  by (simp add: canonicalize_def problem_3_def Problem_def combined_constraints_def
        filter_constraints_def objective_3_def e8_def l9_def)

lemma variables_problem_3: "variables objective_3 [e8, l9] = Inr [x1]"
  by (simp add: variables_def collect_variables_def var_dict_def objective_3_def
        e8_def l9_def x1_def)

lemma ids_3: "variable_ids [x1] = [Slot ''x'' 0 0]"
  by (simp add: variable_ids_def x1_def index_id_def)

lemma G_3: "constraints_matrix [l9] [Slot ''x'' 0 0] (get_matrix_interface SPARSE_TARGET)
   = \<lparr>m_target = SPARSE_TARGET, m_size = (1, 1), m_rows = [[-1]]\<rparr>"
  by code_simp

lemma intf_3: "p_interface problem_3 = get_matrix_interface SPARSE_TARGET"
  by (simp add: problem_3_def Problem_def)

lemma assemble_problem_3:
  "\<exists>asm. assemble remdups problem_3 = Inr asm
      \<and> asm_variables asm = [x1] \<and> asm_eq_constr asm = [e8] \<and> asm_ineq_constr asm = [l9]
      \<and> arg_G (asm_args asm) = \<lparr>m_target = SPARSE_TARGET, m_size = (1, 1), m_rows = [[-1]]\<rparr>
      \<and> dims_s (arg_dims (asm_args asm)) = []"
  unfolding assemble_def canonicalize_problem_3
  by (simp add: variables_problem_3 Let_def ids_3 intf_3 G_3 del: One_nat_def)

subsection \<open>Independence of the convexity flags\<close>

lemma combined_constraints_dcp:
  "combined_constraints
     (p\<lparr>p_objective := (p_objective p)\<lparr>o_is_dcp := d\<rparr>,
        p_constraints := map (\<lambda>k. k\<lparr>k_is_dcp := f k\<rparr>) (p_constraints p)\<rparr>)
   = combined_constraints p"
  by (simp add: combined_constraints_def fold_map comp_def)

lemma canonicalize_dcp:
  "canonicalize enum
     (p\<lparr>p_objective := (p_objective p)\<lparr>o_is_dcp := d\<rparr>,
        p_constraints := map (\<lambda>k. k\<lparr>k_is_dcp := f k\<rparr>) (p_constraints p)\<rparr>)
   = canonicalize enum p"
  unfolding canonicalize_def combined_constraints_dcp by simp

lemma assemble_dcp:
  "assemble enum
     (p\<lparr>p_objective := (p_objective p)\<lparr>o_is_dcp := d\<rparr>,
        p_constraints := map (\<lambda>k. k\<lparr>k_is_dcp := f k\<rparr>) (p_constraints p)\<rparr>)
   = assemble enum p"
  unfolding assemble_def canonicalize_dcp
  by (simp split: sum.splits prod.splits)

lemma run_backend_dcp:
  "run_backend conelp ecos
     (p\<lparr>p_objective := (p_objective p)\<lparr>o_is_dcp := d\<rparr>,
        p_constraints := map (\<lambda>k. k\<lparr>k_is_dcp := f k\<rparr>) (p_constraints p)\<rparr>) args
   = run_backend conelp ecos p args"
  by (simp add: run_backend_def)

lemma solve_printed:
  "o_printed (solve_internal conelp ecos enum p st)
     = (if is_dcp p then [] else [''Problem does not follow DCP rules.''])"
  by (simp add: solve_internal_def Let_def split: sum.splits prod.splits option.splits)

lemma solve_dcp:
  "solve_internal conelp ecos enum
     (p\<lparr>p_objective := (p_objective p)\<lparr>o_is_dcp := d\<rparr>,
        p_constraints := map (\<lambda>k. k\<lparr>k_is_dcp := f k\<rparr>) (p_constraints p)\<rparr>) st
   = (solve_internal conelp ecos enum p st)
       \<lparr>o_printed := o_printed (solve_internal conelp ecos enum
           (p\<lparr>p_objective := (p_objective p)\<lparr>o_is_dcp := d\<rparr>,
              p_constraints := map (\<lambda>k. k\<lparr>k_is_dcp := f k\<rparr>) (p_constraints p)\<rparr>) st)\<rparr>"
  unfolding solve_internal_def Let_def assemble_dcp run_backend_dcp
  by (simp split: sum.splits prod.splits option.splits)

subsection \<open>Coefficient maps\<close>

lemma map2_assoc:
  assumes "\<And>a b c. f (f a b) c = f a (f b c)"
  shows "map2 f (map2 f xs ys) zs = map2 f xs (map2 f ys zs)"
proof (induction xs arbitrary: ys zs)
  case Nil
  then show ?case by simp
next
  case (Cons x xs)
  show ?case
  proof (cases ys)
    case Nil
    then show ?thesis by simp
  next
    case ys: (Cons y ys')
    show ?thesis
    proof (cases zs)
      case Nil
      then show ?thesis by simp
    next
      case (Cons z zs')
      with ys Cons.IH [of ys' zs'] assms show ?thesis by simp
    qed
  qed
qed

lemma block_add_assoc: "block_add (block_add x y) z = block_add x (block_add y z)"
  unfolding block_add_def
  by (rule map2_assoc) (rule map2_assoc, simp)

lemma accumulate_sum:
  "accumulate kb (coefficient_sum m n) = coefficient_sum m (accumulate kb n)"
  by (rule ext)
     (auto simp add: accumulate_def coefficient_sum_def block_add_assoc split: option.splits)

lemma fold_accumulate_sum:
  "fold accumulate kbs (coefficient_sum m n) = coefficient_sum m (fold accumulate kbs n)"
  by (induction kbs arbitrary: n) (simp_all add: accumulate_sum)

lemma fold_terms_sum:
  "fold (\<lambda>t m. fold accumulate (term_coefficients t) m) ts (coefficient_sum m n)
     = coefficient_sum m (fold (\<lambda>t m. fold accumulate (term_coefficients t) m) ts n)"
  by (induction ts arbitrary: n) (simp_all add: fold_accumulate_sum)

lemma coefficient_sum_empty: "coefficient_sum m Map.empty = m"
  by (rule ext) (simp add: coefficient_sum_def split: option.splits)

lemma coefficients_append:
  "coefficients \<lparr>ao_terms = ao_terms a @ ao_terms b, ao_shape = s\<rparr>
     = coefficient_sum (coefficients a) (coefficients b)"
proof -
  have "coefficients \<lparr>ao_terms = ao_terms a @ ao_terms b, ao_shape = s\<rparr>
      = fold (\<lambda>t m. fold accumulate (term_coefficients t) m) (ao_terms b)
          (coefficient_sum (coefficients a) Map.empty)"
    by (simp add: coefficients_def coefficient_sum_empty)
  also have "\<dots> = coefficient_sum (coefficients a) (coefficients b)"
    by (simp only: fold_terms_sum coefficients_def)
  finally show ?thesis .
qed

subsection \<open>Positions of slots\<close>

lemma variable_ids_append:
  "variable_ids (xs @ ys) = variable_ids xs @ variable_ids ys"
  by (simp add: variable_ids_def)

lemma variable_ids_nth:
  assumes "row < fst (v_size var)" and "col < snd (v_size var)"
  shows "variable_ids (pre @ var # post)
           ! (length (variable_ids pre) + (col * fst (v_size var) + row))
         = index_id var row col"
proof -
  let ?block = "concat (map (\<lambda>col. map (\<lambda>row. index_id var row col) [0..<fst (v_size var)])
                 [0..<snd (v_size var)])"
  have "Suc col \<le> snd (v_size var)" using assms(2) by simp
  then have "Suc col * fst (v_size var) \<le> snd (v_size var) * fst (v_size var)"
    by (rule mult_le_mono1)
  with assms(1) have lt: "col * fst (v_size var) + row < length ?block"
    by (simp add: length_concat_cols)
  have "variable_ids (pre @ var # post) = variable_ids pre @ ?block @ variable_ids post"
    by (simp add: variable_ids_append variable_ids_Cons)
  then have "variable_ids (pre @ var # post)
           ! (length (variable_ids pre) + (col * fst (v_size var) + row))
         = ?block ! (col * fst (v_size var) + row)"
    using lt by (simp add: nth_append)
  also have "\<dots> = index_id var row col"
    using nth_concat_cols [OF assms(2) assms(1), where f = "\<lambda>col row. index_id var row col"]
    by simp
  finally show ?thesis .
qed

lemma variables_set:
  assumes "variables objective constraints = Inr vs"
    and "inj_on v_id (set (collect_variables objective constraints))"
  shows "set vs = set (collect_variables objective constraints)"
proof
  show "set vs \<subseteq> set (collect_variables objective constraints)"
    using assms(1) by (rule variables_subset)
next
  let ?vars = "collect_variables objective constraints"
  show "set ?vars \<subseteq> set vs"
  proof
    fix v assume v: "v \<in> set ?vars"
    then have "v_id v \<in> set (sort (remdups (map v_id ?vars)))" by simp
    then have "the (var_dict ?vars (v_id v)) \<in> set vs"
      using assms(1) by (auto simp add: variables_eq)
    with var_dict_inj [OF assms(2) v] show "v \<in> set vs" by simp
  qed
qed

lemma coefficients_xAff:
  "coefficients xAff (Slot ''x'' 0 0) = Some [[1], [0]]"
  "coefficients xAff (Slot ''y'' 0 0) = None"
  by code_simp+

section \<open>The epigraph rewrite\<close>

text \<open>
  Claim C1. For an infinity-norm atom \<open>expr\<close> whose first canonicalized argument is \<open>x\<close>,
  \<open>norm_inf_canon\<close> returns; it takes exactly one identity from the counter, for a
  variable \<open>t\<close> of the atom's shape \<open>expr.shape\<close>; it returns \<open>t\<close> and exactly the two
  constraints \<open>x <= promote(t, x.shape)\<close> and \<open>x + promote(t, x.shape) >= 0\<close>; the
  only operand ever promoted is \<open>t\<close>, to the shape of \<open>x\<close>; and \<open>t\<close> is the only variable
  that the constraints introduce.
\<close>

theorem norm_inf_canon_epigraph:
  "\<exists>t cs. norm_inf_canon expr (x # rest) n = Inr ((t, cs), Suc n)
      \<and> t = \<lparr>t_id = n, t_shape = e_shape expr\<rparr>
      \<and> cs = [Leq (ArgExpr x) (promote (Var t) (e_shape x)),
              Geq (AddExpr (ArgExpr x) (promote (Var t) (e_shape x))) (NumConst 0)]
      \<and> concat (map promoted_c cs) = [(Var t, e_shape x), (Var t, e_shape x)]
      \<and> \<Union> (constraint_vars ` set cs) = {t}"
  by (simp add: norm_inf_canon_def Variable_def Let_def)

section \<open>Partition and cone dimensions\<close>

text \<open>
  Claim C2. Let \<open>eq\<close>, \<open>ineq\<close>, \<open>soc\<close> be the buckets that \<open>filter_constraints\<close> returns for
  the combined list. Then \<open>canonicalize\<close> returns; \<open>dims['l']\<close> is the sum of rows times
  cols over \<open>ineq\<close>, the inequality bucket as it is before any cone is reformatted; the
  inequality bucket returned is \<open>ineq\<close> followed by the \<open>format()\<close> of each cone, in the
  order of \<open>soc\<close>; \<open>dims['q']\<close> lists the cone sizes in the order of \<open>soc\<close>; and \<open>dims['s']\<close>
  is empty.
\<close>

theorem canonicalize_dims:
  assumes "filter_constraints enum (combined_constraints p) = (eq, ineq, soc)"
  shows "\<exists>as (ss :: (nat \<times> nat \<times> affine list) list).
           ineq = map AffLeqConstraint as \<and> soc = map soc_triple ss \<and>
           canonicalize enum p =
             Inr (fst (o_canonical_form (p_objective p)), eq,
                  ineq @ concat (map (\<lambda>(i, n, f). map AffLeqConstraint f) ss),
                  \<lparr>dims_l = (\<Sum>a \<leftarrow> as. fst (a_size a) * snd (a_size a)),
                   dims_q = map (\<lambda>(i, n, f). n) ss,
                   dims_s = []\<rparr>)"
  using assms by (rule canonicalize_result)

theorem canonicalize_dims_witness:
  "filter_constraints remdups (combined_constraints problem_1) = ([eq_3], [leq_1], [soc_4])
   \<and> (\<exists>ineq'. canonicalize remdups problem_1 =
         Inr (objective_0, [eq_3], leq_1 # ineq', \<lparr>dims_l = 2, dims_q = [3], dims_s = []\<rparr>)
         \<and> length ineq' = 2)"
proof -
  note f = filter_problem_1
  from canonicalize_dims [OF f]
  obtain as and ss :: "(nat \<times> nat \<times> affine list) list" where
    as: "[leq_1] = map AffLeqConstraint as" and ss: "[soc_4] = map soc_triple ss" and
    c: "canonicalize remdups problem_1 =
             Inr (fst (o_canonical_form (p_objective problem_1)), [eq_3],
                  [leq_1] @ concat (map (\<lambda>(i, n, f). map AffLeqConstraint f) ss),
                  \<lparr>dims_l = (\<Sum>a \<leftarrow> as. fst (a_size a) * snd (a_size a)),
                   dims_q = map (\<lambda>(i, n, f). n) ss,
                   dims_s = []\<rparr>)"
    by (elim exE conjE) (rule that)
  from as obtain a where a: "as = [a]" "leq_1 = AffLeqConstraint a"
    by (cases as) auto
  from ss obtain s where s: "ss = [s]" "soc_4 = soc_triple s"
    by (cases ss) auto
  from a(2) have a': "a_size a = (2, 1)"
    by (auto simp add: leq_1_def)
  from s(2) have s': "fst (snd s) = 3 \<and> length (snd (snd s)) = 2"
    by (cases s) (auto simp add: soc_4_def)
  have "canonicalize remdups problem_1 =
         Inr (objective_0, [eq_3],
              leq_1 # concat (map (\<lambda>(i, n, f). map AffLeqConstraint f) ss),
              \<lparr>dims_l = 2, dims_q = [3], dims_s = []\<rparr>)"
    using c a' s' by (simp add: a(1) s(1) problem_1_def Problem_def split_beta)
  moreover have "length (concat (map (\<lambda>(i, n, f). map AffLeqConstraint f) ss)) = 2"
    using s' by (simp add: s(1) split_beta)
  ultimately show ?thesis using f by blast
qed

text \<open>
  Claim C3, as amended. Deduplication is by object identity only. When \<open>enum\<close> lists the
  set of the combined list, every object of the list that is an equality, an inequality
  or a second-order-cone constraint occurs exactly once in the three buckets, however
  often it occurs in the list, and the buckets hold objects of the list only. Two
  distinct objects both stay, whether or not they are structurally identical.
\<close>

theorem filter_constraints_identity_dedup:
  assumes "py_set_list enum cs"
    and "filter_constraints enum cs = (eq, ineq, soc)"
    and "c \<in> set cs"
  shows "count_list (eq @ ineq @ soc) c =
           (if isinstance_AffEqConstraint c \<or> isinstance_AffLeqConstraint c \<or> isinstance_SOC c
            then 1 else 0)
         \<and> set (eq @ ineq @ soc) \<subseteq> set cs"
proof -
  from assms(2) have eq: "eq = [c \<leftarrow> enum cs. isinstance_AffEqConstraint c]"
    and ineq: "ineq = [c \<leftarrow> enum cs. isinstance_AffLeqConstraint c]"
    and soc: "soc = [c \<leftarrow> enum cs. isinstance_SOC c]"
    by (simp_all add: filter_constraints_def Let_def)
  from assms(1,3) have once: "count_list (enum cs) c = 1"
    by (simp add: py_set_list_def count_list_distinct)
  have "count_list (eq @ ineq @ soc) c =
          count_list [c \<leftarrow> enum cs. isinstance_AffEqConstraint c] c
        + count_list [c \<leftarrow> enum cs. isinstance_AffLeqConstraint c] c
        + count_list [c \<leftarrow> enum cs. isinstance_SOC c] c"
    by (simp add: eq ineq soc)
  then have "count_list (eq @ ineq @ soc) c =
           (if isinstance_AffEqConstraint c \<or> isinstance_AffLeqConstraint c \<or> isinstance_SOC c
            then 1 else 0)"
    using once by (cases c) (simp_all add: count_list_filter)
  moreover have "set (eq @ ineq @ soc) \<subseteq> set cs"
    using assms(1) by (auto simp add: eq ineq soc py_set_list_def)
  ultimately show ?thesis by blast
qed

theorem filter_constraints_identity_dedup_witness:
  "py_set_list remdups [leq_1, leq_1, leq_2, OtherObject 9]
   \<and> filter_constraints remdups [leq_1, leq_1, leq_2, OtherObject 9] = ([], [leq_1, leq_2], [])
   \<and> leq_1 \<in> set [leq_1, leq_1, leq_2, OtherObject 9]
   \<and> count_list ([] @ [leq_1, leq_2] @ []) leq_1 = 1
   \<and> set ([] @ [leq_1, leq_2] @ []) \<subseteq> set [leq_1, leq_1, leq_2, OtherObject 9]"
proof -
  have h1: "py_set_list remdups [leq_1, leq_1, leq_2, OtherObject 9]"
    by (auto simp add: py_set_list_def leq_1_def leq_2_def)
  have h2: "filter_constraints remdups [leq_1, leq_1, leq_2, OtherObject 9]
              = ([], [leq_1, leq_2], [])"
    by (simp add: filter_constraints_def leq_1_def leq_2_def)
  have h3: "leq_1 \<in> set [leq_1, leq_1, leq_2, OtherObject 9]"
    by simp
  from filter_constraints_identity_dedup [OF h1 h2 h3] h1 h2 h3 show ?thesis
    by (simp add: leq_1_def)
qed

text \<open>
  The claim as stated fails: \<open>leq_1\<close> and \<open>leq_2\<close> are structurally identical and are two
  objects; identity-based deduplication keeps both.
\<close>

theorem structurally_identical_pair_survives:
  "py_set_list remdups [leq_1, leq_2] \<and> same_structure leq_1 leq_2 \<and> leq_1 \<noteq> leq_2
   \<and> filter_constraints remdups [leq_1, leq_2] = ([], [leq_1, leq_2], [])"
  by (simp add: py_set_list_def filter_constraints_def leq_1_def leq_2_def)

text \<open>
  Claim C10. An object of the combined list that is neither an \<open>AffEqConstraint\<close>, an
  \<open>AffLeqConstraint\<close> nor an \<open>SOC\<close> is in none of the three buckets of
  \<open>filter_constraints\<close>, which returns without an error; \<open>canonicalize\<close> returns all the
  same, and the object is in neither bucket of the canonical program.
\<close>

theorem filter_constraints_drops_other:
  "(case filter_constraints enum cs of
      (eq, ineq, soc) \<Rightarrow>
        OtherObject i \<notin> set eq \<and> OtherObject i \<notin> set ineq \<and> OtherObject i \<notin> set soc)
   \<and> (\<exists>obj eq ineq d. canonicalize enum p = Inr (obj, eq, ineq, d)
         \<and> OtherObject i \<notin> set eq \<and> OtherObject i \<notin> set ineq)"
proof
  show "case filter_constraints enum cs of
      (eq, ineq, soc) \<Rightarrow>
        OtherObject i \<notin> set eq \<and> OtherObject i \<notin> set ineq \<and> OtherObject i \<notin> set soc"
    by (simp add: filter_constraints_def Let_def)
next
  obtain eq ineq soc where f: "filter_constraints enum (combined_constraints p) = (eq, ineq, soc)"
    by (cases "filter_constraints enum (combined_constraints p)") auto
  then have eq: "OtherObject i \<notin> set eq"
    by (auto simp add: filter_constraints_def Let_def)
  from canonicalize_result [OF f]
  obtain as and ss :: "(nat \<times> nat \<times> affine list) list" where
    as: "ineq = map AffLeqConstraint as" and
    c: "canonicalize enum p =
             Inr (fst (o_canonical_form (p_objective p)), eq,
                  ineq @ concat (map (\<lambda>(i, n, f). map AffLeqConstraint f) ss),
                  \<lparr>dims_l = (\<Sum>a \<leftarrow> as. fst (a_size a) * snd (a_size a)),
                   dims_q = map (\<lambda>(i, n, f). n) ss,
                   dims_s = []\<rparr>)"
    by blast
  have "OtherObject i \<notin> set (ineq @ concat (map (\<lambda>(i, n, f). map AffLeqConstraint f) ss))"
    by (auto simp add: as)
  with c eq show "\<exists>obj eq ineq d. canonicalize enum p = Inr (obj, eq, ineq, d)
         \<and> OtherObject i \<notin> set eq \<and> OtherObject i \<notin> set ineq"
    by blast
qed

section \<open>Variable enumeration\<close>

text \<open>
  Claim C6. \<open>variables\<close> returns the variables collected from the objective and the
  constraints sorted strictly ascending by id, each once; when an id stands for one
  object, these are exactly the collected objects, and any other collection of the same
  objects, in whatever order and with whatever repetitions, gives the same list, hence
  the same slot ids and the same matrix for every list of expressions. \<open>variable_ids\<close>
  gives a variable of r rows and c columns r times c slots in column-major order: after
  the slots of the variables before it, the slot of (row, col) is at position
  col * r + row.
\<close>

theorem variable_enumeration_deterministic:
  assumes same: "set (collect_variables objective' constraints')
                   = set (collect_variables objective constraints)"
    and ids: "inj_on v_id (set (collect_variables objective constraints))"
    and row: "row < fst (v_size var)" and col: "col < snd (v_size var)"
  shows "\<exists>vs vs'. variables objective constraints = Inr vs
           \<and> variables objective' constraints' = Inr vs'
           \<and> vs' = vs
           \<and> constraints_matrix es (variable_ids vs') intf
               = constraints_matrix es (variable_ids vs) intf
           \<and> sorted (map v_id vs) \<and> distinct (map v_id vs)
           \<and> set vs = set (collect_variables objective constraints)
           \<and> length (variable_ids vs) = (\<Sum>v \<leftarrow> vs. fst (v_size v) * snd (v_size v))
           \<and> variable_ids (pre @ var # post)
                ! (length (variable_ids pre) + (col * fst (v_size var) + row))
              = index_id var row col"
proof -
  obtain vs where vs: "variables objective constraints = Inr vs"
    by (simp add: variables_eq)
  from variables_order_independent [OF same [symmetric] ids] vs
  have vs': "variables objective' constraints' = Inr vs" by simp
  from variables_ids_sorted [OF vs]
  have "sorted (map v_id vs)" and "distinct (map v_id vs)" by simp_all
  moreover note variables_set [OF vs ids] length_variable_ids [of vs]
    variable_ids_nth [OF row col, of pre post]
  ultimately show ?thesis using vs vs' by blast
qed

theorem variable_enumeration_deterministic_witness:
  "variables objective_a [constraint_a] = Inr [vy, vx, vz]
   \<and> variables objective_b [constraint_b] = Inr [vy, vx, vz]
   \<and> map v_id [vy, vx, vz] = [''var10'', ''var9'', ''x'']
   \<and> variable_ids [vy, vx, vz]
        = [Slot ''var10'' 0 0,
           Slot ''var9'' 0 0, Slot ''var9'' 1 0, Slot ''var9'' 0 1, Slot ''var9'' 1 1,
           Slot ''x'' 0 0, Slot ''x'' 1 0]
   \<and> variable_ids ([vy] @ vx # [vz]) ! (length (variable_ids [vy]) + (1 * fst (v_size vx) + 0))
        = index_id vx 0 1"
proof -
  have ca: "collect_variables objective_a [constraint_a] = [vx, vz, vy, vx]"
    by (simp add: collect_variables_def objective_a_def constraint_a_def)
  have cb: "collect_variables objective_b [constraint_b] = [vy, vz, vx, vz]"
    by (simp add: collect_variables_def objective_b_def constraint_b_def)
  have same: "set (collect_variables objective_b [constraint_b])
                = set (collect_variables objective_a [constraint_a])"
    unfolding ca cb by auto
  have ids: "inj_on v_id (set (collect_variables objective_a [constraint_a]))"
    unfolding ca by (auto simp add: inj_on_def vx_def vy_def vz_def)
  have row: "0 < fst (v_size vx)" and col: "1 < snd (v_size vx)"
    by (simp_all add: vx_def)
  from variable_enumeration_deterministic [OF same ids row col, where pre = "[vy]" and post = "[vz]"]
  obtain vs where vs: "variables objective_a [constraint_a] = Inr vs"
    "variables objective_b [constraint_b] = Inr vs"
    "variable_ids ([vy] @ vx # [vz]) ! (length (variable_ids [vy]) + (1 * fst (v_size vx) + 0))
        = index_id vx 0 1"
    by auto
  have a: "variables objective_a [constraint_a] = Inr [vy, vx, vz]"
    unfolding variables_def ca
    by (simp add: var_dict_def vx_def vy_def vz_def)
  from vs(1) a have e: "vs = [vy, vx, vz]" by simp
  note b = vs(2) [unfolded e]
  have s: "variable_ids [vy, vx, vz]
        = [Slot ''var10'' 0 0,
           Slot ''var9'' 0 0, Slot ''var9'' 1 0, Slot ''var9'' 0 1, Slot ''var9'' 1 1,
           Slot ''x'' 0 0, Slot ''x'' 1 0]"
    by code_simp
  have m: "map v_id [vy, vx, vz] = [''var10'', ''var9'', ''x'']"
    by (simp add: vx_def vy_def vz_def)
  show ?thesis
    by (intro conjI) (rule a, rule b, rule m, rule s, rule vs(3))
qed

section \<open>The solve pipeline\<close>

text \<open>
  Claim C7. \<open>_solve\<close> reaches exactly one backend call. The call goes to
  \<open>cvxopt.solvers.conelp\<close> when \<open>dims['s']\<close> is non-empty, or a dimension of \<open>G\<close> is zero, or
  the matrix interface of the problem is dense, and to \<open>ecos.ecos\<close> in every other case.
  Either way the arguments are the assembled \<open>c\<close>, \<open>G\<close>, \<open>h\<close>, \<open>A\<close>, \<open>b\<close> and \<open>dims\<close>, which
  do not depend on the choice.
\<close>

theorem backend_routing:
  "\<exists>asm. assemble enum p = Inr asm
     \<and> o_called (solve_internal conelp ecos enum p st) =
         [(if 0 < length (dims_s (arg_dims (asm_args asm)))
              \<or> min (fst (m_size (arg_G (asm_args asm))))
                     (snd (m_size (arg_G (asm_args asm)))) = 0
              \<or> TARGET_MATRIX (p_interface p) = DENSE_TARGET
           then CVXOPT_CONELP else ECOS,
           asm_args asm)]"
proof -
  from assemble_result obtain asm where asm: "assemble enum p = Inr asm" by blast
  from solve_called [OF asm] have
    "o_called (solve_internal conelp ecos enum p st) =
         [(if 0 < length (dims_s (arg_dims (asm_args asm)))
              \<or> min (fst (m_size (arg_G (asm_args asm))))
                     (snd (m_size (arg_G (asm_args asm)))) = 0
              \<or> TARGET_MATRIX (p_interface p) = DENSE_TARGET
           then CVXOPT_CONELP else ECOS,
           asm_args asm)]"
    by (simp only: run_backend_choice)
  with asm show ?thesis by blast
qed

text \<open>
  Claim C8, as amended. Once the backend has reported, \<open>_solve\<close> ends in one of three
  ways. If the report is not a success, the status string is returned and the store is
  as it was: nothing is written back. If the report is a success, the vectors \<open>x\<close>, \<open>y\<close>
  and \<open>z\<close> are split, in this order, over the variables, the equality constraints and the
  inequality constraints, every object receiving the value at its offset, and
  \<open>objective.value(primal_val)\<close> is returned, provided that no read is out of range. If a
  read is out of range, \<open>IndexError\<close> is raised there: the values written before it stay
  and no later object is written.
\<close>

theorem solve_terminal_states:
  assumes "assemble enum p = Inr asm"
    and "run_backend conelp ecos p (asm_args asm) = (b, rep)"
  shows
    "let out = solve_internal conelp ecos enum p st;
         X = map variable_object (asm_variables asm);
         Y = map constraint_object (asm_eq_constr asm);
         Z = map constraint_object (asm_ineq_constr asm);
         wx = write_list (r_x rep) 0 X;
         wy = write_list (r_y rep) 0 Y;
         wz = write_list (r_z rep) 0 Z
     in if \<not> r_solved rep then
          o_returned out = Inr (Status (r_status rep)) \<and> o_store out = st
        else if saved_count (r_x rep) 0 X \<noteq> length X then
          o_returned out = Inl IndexError \<and> o_store out = after_writes st wx
        else if saved_count (r_y rep) 0 Y \<noteq> length Y then
          o_returned out = Inl IndexError \<and> o_store out = after_writes st (wx @ wy)
        else if saved_count (r_z rep) 0 Z \<noteq> length Z then
          o_returned out = Inl IndexError \<and> o_store out = after_writes st (wx @ wy @ wz)
        else
          o_returned out = Inr (Value (o_value (p_objective p) (r_primal_val rep)))
          \<and> o_store out = after_writes st (wx @ wy @ wz)
          \<and> map fst wx = map (\<lambda>v. VariableRef (v_id v)) (asm_variables asm)
          \<and> map fst wy = map (\<lambda>a. ConstraintRef (a_oid a)) (asm_eq_constr asm)
          \<and> map fst wz = map (\<lambda>a. ConstraintRef (a_oid a)) (asm_ineq_constr asm)"
proof -
  have fx: "map fst (map variable_object vs) = map (\<lambda>v. VariableRef (v_id v)) vs" for vs
    by (simp add: variable_object_def)
  have fc: "map fst (map constraint_object cs) = map (\<lambda>a. ConstraintRef (a_oid a)) cs" for cs
    by (simp add: constraint_object_def)
  show ?thesis
    unfolding solve_outcome [OF assms] Let_def
    by (simp add: write_list_all fx fc del: map_map)
qed

theorem solve_terminal_states_witness:
  "o_returned (solve_internal conelp_fixed ecos_fixed remdups problem_2 Map.empty) = Inr (Value 7)
   \<and> o_store (solve_internal conelp_fixed ecos_fixed remdups problem_2 Map.empty)
       = [VariableRef ''x'' \<mapsto>
            Block \<lparr>m_target = DENSE_TARGET, m_size = (2, 1), m_rows = [[3], [4]]\<rparr>,
          ConstraintRef 7 \<mapsto>
            Block \<lparr>m_target = DENSE_TARGET, m_size = (2, 1), m_rows = [[5], [6]]\<rparr>]
   \<and> o_returned (solve_internal conelp_fixed ecos_failing remdups problem_2 Map.empty)
         = Inr (Status ''Primal infeasible'')
   \<and> o_store (solve_internal conelp_fixed ecos_failing remdups problem_2 Map.empty) = Map.empty"
proof -
  note a = assemble_problem_2
  let ?args = "\<lparr>arg_c = \<lparr>m_target = DENSE_TARGET, m_size = (2, 1), m_rows = [[1], [1]]\<rparr>,
           arg_G = \<lparr>m_target = SPARSE_TARGET, m_size = (2, 2), m_rows = [[1, 0], [0, 1]]\<rparr>,
           arg_h = \<lparr>m_target = DENSE_TARGET, m_size = (2, 1), m_rows = [[3], [4]]\<rparr>,
           arg_A = \<lparr>m_target = SPARSE_TARGET, m_size = (0, 2), m_rows = []\<rparr>,
           arg_b = \<lparr>m_target = DENSE_TARGET, m_size = (0, 1), m_rows = []\<rparr>,
           arg_dims = \<lparr>dims_l = 2, dims_q = [], dims_s = []\<rparr>\<rparr>"
  let ?ok = "\<lparr>r_solved = True, r_status = ''Optimal solution found'', r_primal_val = 7,
              r_x = [3, 4], r_y = [], r_z = [5, 6]\<rparr>"
  let ?bad = "\<lparr>r_solved = False, r_status = ''Primal infeasible'', r_primal_val = 0,
              r_x = [], r_y = [], r_z = []\<rparr>"
  have ok: "run_backend conelp_fixed ecos_fixed problem_2 (asm_args
             \<lparr>asm_objective = objective_2, asm_eq_constr = [], asm_ineq_constr = [a7],
              asm_variables = [xs2], asm_args = ?args\<rparr>) = (ECOS, ?ok)"
    by (simp add: run_backend_problem_2 ecos_fixed_def)
  have bad: "run_backend conelp_fixed ecos_failing problem_2 (asm_args
             \<lparr>asm_objective = objective_2, asm_eq_constr = [], asm_ineq_constr = [a7],
              asm_variables = [xs2], asm_args = ?args\<rparr>) = (ECOS, ?bad)"
    by (simp add: run_backend_problem_2 ecos_failing_def)
  have x: "saved_count [3, 4] 0 [(VariableRef ''x'', (2, 1))] = 1"
    and y: "saved_count [] 0 [] = 0"
    and z: "saved_count [5, 6] 0 [(ConstraintRef 7, (2, 1))] = 1"
    by code_simp+
  have wx: "write_list [3, 4] 0 [(VariableRef ''x'', (2, 1))]
              = [(VariableRef ''x'',
                  Block \<lparr>m_target = DENSE_TARGET, m_size = (2, 1), m_rows = [[3], [4]]\<rparr>)]"
    and wy: "write_list [] 0 [] = []"
    and wz: "write_list [5, 6] 0 [(ConstraintRef 7, (2, 1))]
              = [(ConstraintRef 7,
                  Block \<lparr>m_target = DENSE_TARGET, m_size = (2, 1), m_rows = [[5], [6]]\<rparr>)]"
    by code_simp+
  have w: "after_writes Map.empty
             [(VariableRef ''x'',
                  Block \<lparr>m_target = DENSE_TARGET, m_size = (2, 1), m_rows = [[3], [4]]\<rparr>),
              (ConstraintRef 7,
                  Block \<lparr>m_target = DENSE_TARGET, m_size = (2, 1), m_rows = [[5], [6]]\<rparr>)]
           = [VariableRef ''x'' \<mapsto>
                Block \<lparr>m_target = DENSE_TARGET, m_size = (2, 1), m_rows = [[3], [4]]\<rparr>,
              ConstraintRef 7 \<mapsto>
                Block \<lparr>m_target = DENSE_TARGET, m_size = (2, 1), m_rows = [[5], [6]]\<rparr>]"
    by (rule ext) (simp add: after_writes_def)
  from solve_terminal_states [OF a ok, of Map.empty]
  have 1: "o_returned (solve_internal conelp_fixed ecos_fixed remdups problem_2 Map.empty)
             = Inr (Value 7)
   \<and> o_store (solve_internal conelp_fixed ecos_fixed remdups problem_2 Map.empty)
       = [VariableRef ''x'' \<mapsto>
            Block \<lparr>m_target = DENSE_TARGET, m_size = (2, 1), m_rows = [[3], [4]]\<rparr>,
          ConstraintRef 7 \<mapsto>
            Block \<lparr>m_target = DENSE_TARGET, m_size = (2, 1), m_rows = [[5], [6]]\<rparr>]"
    unfolding Let_def
    by (simp add: variable_object_def constraint_object_def xs2_def a7_def
          x y z wx wy wz w problem_2_def Problem_def del: One_nat_def)
  from solve_terminal_states [OF a bad, of Map.empty]
  have 2: "o_returned (solve_internal conelp_fixed ecos_failing remdups problem_2 Map.empty)
         = Inr (Status ''Primal infeasible'')
   \<and> o_store (solve_internal conelp_fixed ecos_failing remdups problem_2 Map.empty) = Map.empty"
    unfolding Let_def by simp
  from 1 2 show ?thesis by simp
qed

text \<open>
  The claim as stated fails: on \<open>problem_3\<close> the backend \<open>ecos_short\<close> reports success, the
  values of the variable and of the equality constraint are written back, and the read
  of the inequality dual raises \<open>IndexError\<close>, so the invocation ends in neither of the
  two states, with a partial write-back.
\<close>

theorem short_result_vector_raises:
  "map fst (o_called (solve_internal conelp_fixed ecos_short remdups problem_3 Map.empty)) = [ECOS]
   \<and> ecos_exitFlag (ecos_short
         (snd (hd (o_called (solve_internal conelp_fixed ecos_short remdups problem_3 Map.empty))))) = 0
   \<and> o_returned (solve_internal conelp_fixed ecos_short remdups problem_3 Map.empty)
        = Inl IndexError
   \<and> o_store (solve_internal conelp_fixed ecos_short remdups problem_3 Map.empty)
        (VariableRef ''x'') = Some (Scalar 1)
   \<and> o_store (solve_internal conelp_fixed ecos_short remdups problem_3 Map.empty)
        (ConstraintRef 8) = Some (Scalar 2)
   \<and> o_store (solve_internal conelp_fixed ecos_short remdups problem_3 Map.empty)
        (ConstraintRef 9) = None"
proof -
  from assemble_problem_3 obtain asm where
    asm: "assemble remdups problem_3 = Inr asm"
    and parts: "asm_variables asm = [x1]" "asm_eq_constr asm = [e8]" "asm_ineq_constr asm = [l9]"
    and G: "arg_G (asm_args asm) = \<lparr>m_target = SPARSE_TARGET, m_size = (1, 1), m_rows = [[-1]]\<rparr>"
    and s: "dims_s (arg_dims (asm_args asm)) = []"
    by blast
  have rb: "run_backend conelp_fixed ecos_short problem_3 (asm_args asm)
              = (ECOS, \<lparr>r_solved = True, r_status = ''Optimal solution found'',
                        r_primal_val = 1, r_x = [1], r_y = [2], r_z = []\<rparr>)"
    by (simp add: run_backend_def Let_def G s intf_3 get_matrix_interface_def ecos_short_def)
  have x: "saved_count [1] 0 [(VariableRef ''x'', (1, 1))] = 1"
    and y: "saved_count [2] 0 [(ConstraintRef 8, (1, 1))] = 1"
    and z: "saved_count [] 0 [(ConstraintRef 9, (1, 1))] = 0"
    by code_simp+
  have w: "after_writes Map.empty
             (write_list [1] 0 [(VariableRef ''x'', (1, 1))]
              @ write_list [2] 0 [(ConstraintRef 8, (1, 1))]
              @ write_list [] 0 [(ConstraintRef 9, (1, 1))])
           = [VariableRef ''x'' \<mapsto> Scalar 1, ConstraintRef 8 \<mapsto> Scalar 2]"
    by (rule ext) (simp add: after_writes_def write_list_Cons write_list_Nil written_value_def)
  show ?thesis
    unfolding solve_outcome [OF asm rb] Let_def
    by (simp add: parts variable_object_def constraint_object_def x1_def e8_def l9_def
          x y z w ecos_short_def del: One_nat_def)
qed

text \<open>
  Claim C9. A failed \<open>is_dcp\<close> check only prints a line. The pipeline reaches the backend
  call whatever the check says, and the backend call, the value returned and the store
  are the same for any other values of the \<open>is_dcp\<close> flags of the objective and the
  constraints.
\<close>

theorem dcp_check_is_advisory:
  "o_printed (solve_internal conelp ecos enum p st)
     = (if is_dcp p then [] else [''Problem does not follow DCP rules.''])
   \<and> (\<exists>b args. o_called (solve_internal conelp ecos enum p st) = [(b, args)])
   \<and> o_called (solve_internal conelp ecos enum
        (p\<lparr>p_objective := (p_objective p)\<lparr>o_is_dcp := d\<rparr>,
           p_constraints := map (\<lambda>k. k\<lparr>k_is_dcp := f k\<rparr>) (p_constraints p)\<rparr>) st)
       = o_called (solve_internal conelp ecos enum p st)
   \<and> o_returned (solve_internal conelp ecos enum
        (p\<lparr>p_objective := (p_objective p)\<lparr>o_is_dcp := d\<rparr>,
           p_constraints := map (\<lambda>k. k\<lparr>k_is_dcp := f k\<rparr>) (p_constraints p)\<rparr>) st)
       = o_returned (solve_internal conelp ecos enum p st)
   \<and> o_store (solve_internal conelp ecos enum
        (p\<lparr>p_objective := (p_objective p)\<lparr>o_is_dcp := d\<rparr>,
           p_constraints := map (\<lambda>k. k\<lparr>k_is_dcp := f k\<rparr>) (p_constraints p)\<rparr>) st)
       = o_store (solve_internal conelp ecos enum p st)"
proof -
  from assemble_result obtain asm where asm: "assemble enum p = Inr asm" by blast
  from solve_called [OF asm]
  have "\<exists>b args. o_called (solve_internal conelp ecos enum p st) = [(b, args)]"
    by blast
  moreover note solve_printed [of conelp ecos enum p st]
  moreover have "o_called (solve_internal conelp ecos enum
        (p\<lparr>p_objective := (p_objective p)\<lparr>o_is_dcp := d\<rparr>,
           p_constraints := map (\<lambda>k. k\<lparr>k_is_dcp := f k\<rparr>) (p_constraints p)\<rparr>) st)
       = o_called (solve_internal conelp ecos enum p st)"
    by (subst solve_dcp) simp
  moreover have "o_returned (solve_internal conelp ecos enum
        (p\<lparr>p_objective := (p_objective p)\<lparr>o_is_dcp := d\<rparr>,
           p_constraints := map (\<lambda>k. k\<lparr>k_is_dcp := f k\<rparr>) (p_constraints p)\<rparr>) st)
       = o_returned (solve_internal conelp ecos enum p st)"
    by (subst solve_dcp) simp
  moreover have "o_store (solve_internal conelp ecos enum
        (p\<lparr>p_objective := (p_objective p)\<lparr>o_is_dcp := d\<rparr>,
           p_constraints := map (\<lambda>k. k\<lparr>k_is_dcp := f k\<rparr>) (p_constraints p)\<rparr>) st)
       = o_store (solve_internal conelp ecos enum p st)"
    by (subst solve_dcp) simp
  ultimately show ?thesis by simp
qed

section \<open>Coefficients of a sum\<close>

text \<open>
  Claim C5. For affine expressions \<open>a\<close> and \<open>b\<close> of equal shape the sum exists, and its
  coefficient map is the blockwise sum of the coefficient maps of \<open>a\<close> and \<open>b\<close>, over the
  union of their slot ids: a block under an id of both is the sum of the two blocks.
\<close>

theorem coefficients_add:
  assumes "ao_shape a = ao_shape b"
  shows "\<exists>c. add a b = Inr c
           \<and> coefficients c = coefficient_sum (coefficients a) (coefficients b)
           \<and> dom (coefficients c) = dom (coefficients a) \<union> dom (coefficients b)"
proof -
  have "dom (coefficient_sum (coefficients a) (coefficients b))
          = dom (coefficients a) \<union> dom (coefficients b)"
    by (auto simp add: coefficient_sum_def dom_def split: option.splits)
  with assms show ?thesis
    by (simp add: add_def coefficients_append)
qed

theorem coefficients_add_witness:
  "ao_shape xAff = ao_shape xAff
   \<and> (\<exists>c. add xAff xAff = Inr c
          \<and> coefficients c (Slot ''x'' 0 0) = Some [[2], [0]]
          \<and> coefficients c (Slot ''y'' 0 0) = None)"
proof -
  have h: "ao_shape xAff = ao_shape xAff" by simp
  from coefficients_add [OF h] obtain c where
    c: "add xAff xAff = Inr c"
       "coefficients c = coefficient_sum (coefficients xAff) (coefficients xAff)"
    by blast
  from c(2) have "coefficients c (Slot ''x'' 0 0) = Some [[2], [0]]"
    and "coefficients c (Slot ''y'' 0 0) = None"
    by (simp_all add: coefficient_sum_def coefficients_xAff block_add_def)
  with c(1) show ?thesis by blast
qed

section \<open>Products of variable-bearing expressions\<close>

text \<open>
  Claim C4, as amended. The product of two variable-bearing affine expressions always
  fails. When the columns of the left operand differ from the rows of the right one,
  the failure is the dimension error \<open>"Incompatible dimensions."\<close>, the error that a sum
  of operands of different shapes raises as well; it is the non-affine error only when
  the shapes are compatible.
\<close>

theorem mul_variable_bearing_fails:
  assumes "variable_bearing a" and "variable_bearing b"
  shows "mul a b = (if snd (ao_shape a) \<noteq> fst (ao_shape b)
                    then Inl IncompatibleDimensions else Inl NonAffine)
         \<and> (ao_shape a \<noteq> ao_shape b \<longrightarrow> add a b = Inl IncompatibleDimensions)"
  using assms by (simp add: mul_def add_def)

theorem mul_variable_bearing_fails_witness:
  "variable_bearing xAff \<and> variable_bearing yAff \<and> variable_bearing zAff
   \<and> mul xAff yAff = Inl IncompatibleDimensions
   \<and> mul zAff xAff = Inl NonAffine
   \<and> add zAff xAff = Inl IncompatibleDimensions"
proof -
  have x: "variable_bearing xAff" by (simp add: variable_bearing_def xAff_def)
  have y: "variable_bearing yAff" by (simp add: variable_bearing_def yAff_def)
  have z: "variable_bearing zAff" by (simp add: variable_bearing_def zAff_def)
  from mul_variable_bearing_fails [OF x y] mul_variable_bearing_fails [OF z x] x y z
  show ?thesis
    by (simp add: xAff_def yAff_def zAff_def)
qed

text \<open>
  The claim as stated fails on the product that \<open>test_mul\<close> checks: \<open>xAff * yAff\<close>, both
  variable-bearing and 2 by 1, raises the dimension error, which is also what the
  sum \<open>xAff + constAff\<close> of \<open>test_add\<close> raises.
\<close>

theorem variable_product_raises_dimension_error:
  "variable_bearing xAff \<and> variable_bearing yAff
   \<and> mul xAff yAff = Inl IncompatibleDimensions
   \<and> mul xAff yAff \<noteq> Inl NonAffine
   \<and> add xAff constAff = Inl IncompatibleDimensions"
  by (simp add: variable_bearing_def mul_def add_def xAff_def yAff_def constAff_def)


end
